theory Spec2Isabelle
  imports Main "HOL-Library.AList"
begin

section \<open>Strings\<close>

text \<open>
  A JavaScript string is modelled as a \<^typ>\<open>string\<close>; a \<^typ>\<open>char\<close> stands for the
  code unit of the same number, so the model covers the strings whose code units are
  all below 256 (U+0000 to U+00FF).
\<close>

text \<open>
  The characters matched by \<^verbatim>\<open>\s\<close> in a regular expression and removed by
  \<^verbatim>\<open>String.prototype.trim\<close> (white space and line terminators): in this range
  TAB, LF, VT, FF, CR, SP and NBSP.
\<close>

definition isSpace :: "char \<Rightarrow> bool" where
  "isSpace c = (of_char c \<in> {9, 10, 11, 12, 13, 32, 160 :: nat})"

text \<open>
  \<^verbatim>\<open>String.prototype.toLowerCase\<close>: in this range the letters A to Z and the
  letters U+00C0 to U+00DE (the multiplication sign U+00D7 apart) move up by 32.
\<close>

definition lowerChar :: "char \<Rightarrow> char" where
  "lowerChar c =
     (let n = of_char c :: nat
      in if (65 \<le> n \<and> n \<le> 90) \<or> (192 \<le> n \<and> n \<le> 222 \<and> n \<noteq> 215)
         then char_of (n + 32) else c)"

definition toLowerCase :: "string \<Rightarrow> string" where
  "toLowerCase s = map lowerChar s"

text \<open>\<^verbatim>\<open>s.trim()\<close>\<close>

definition trim :: "string \<Rightarrow> string" where
  "trim s = rev (dropWhile isSpace (rev (dropWhile isSpace s)))"

text \<open>
  \<^verbatim>\<open>s.split(sep)\<close> for a separator of one character: the pieces between the
  separators, always at least one piece.
\<close>

function split :: "char \<Rightarrow> string \<Rightarrow> string list" where
  "split sep s =
     (case dropWhile (\<lambda>c. c \<noteq> sep) s of
        [] \<Rightarrow> [takeWhile (\<lambda>c. c \<noteq> sep) s]
      | _ # rest \<Rightarrow> takeWhile (\<lambda>c. c \<noteq> sep) s # split sep rest)"
  by pat_completeness auto
termination
proof (relation "measure (\<lambda>(sep, s). length s)")
  show "wf (measure (\<lambda>(sep, s). length s))" by simp
next
  fix sep :: char and s :: string and x rest
  assume "dropWhile (\<lambda>c. c \<noteq> sep) s = x # rest"
  then have "length (x # rest) \<le> length s"
    using length_dropWhile_le [of "\<lambda>c. c \<noteq> sep" s] by simp
  then show "((sep, rest), (sep, s)) \<in> measure (\<lambda>(sep, s). length s)" by simp
qed

declare split.simps [simp del]

text \<open>
  \<^verbatim>\<open>s.replace(/\s+/g, '-')\<close>: every maximal run of white space becomes one
  hyphen.
\<close>

function replaceSpaceRuns :: "string \<Rightarrow> string" where
  "replaceSpaceRuns [] = []"
| "replaceSpaceRuns (c # cs) =
     (if isSpace c then CHR ''-'' # replaceSpaceRuns (dropWhile isSpace cs)
      else c # replaceSpaceRuns cs)"
  by pat_completeness auto
termination
  by (relation "measure length") (auto simp: length_dropWhile_le less_Suc_eq_le)

section \<open>Organization routes: the tenant identifier of a new organization\<close>

text \<open>
  The POST handler of the organization routes derives the identifier from the name:
  \<^verbatim>\<open>const tenantId = name.toLowerCase().replace(/\s+/g, '-');\<close>
\<close>

definition organizationTenantId :: "string \<Rightarrow> string" where
  "organizationTenantId name = replaceSpaceRuns (toLowerCase name)"

text \<open>
  In the tutorial of the repository the same handler reads
  \<^verbatim>\<open>const tenantId = name.toLowerCase().replace(/[^a-z0-9]/g, '-');\<close>
\<close>

definition tutorialTenantId :: "string \<Rightarrow> string" where
  "tutorialTenantId name =
     map (\<lambda>c. if (let n = of_char c :: nat in (97 \<le> n \<and> n \<le> 122) \<or> (48 \<le> n \<and> n \<le> 57))
              then c else CHR ''-'')
       (toLowerCase name)"

section \<open>The world outside the tenant manager\<close>

text \<open>
  A thrown JavaScript error, with the two fields the code reads: its name (used by the
  conversion to a string) and its message.
\<close>

datatype jserror = JsError (errname: string) (message: string)

text \<open>\<^verbatim>\<open>`${error}`\<close>: \<^verbatim>\<open>Error.prototype.toString\<close>.\<close>

definition errorToString :: "jserror \<Rightarrow> string" where
  "errorToString e =
     (if errname e = [] then message e
      else if message e = [] then errname e
      else errname e @ '': '' @ message e)"

text \<open>
  A \<^verbatim>\<open>MikroORM\<close> instance is identified by a number; two instances are the same
  object when the numbers are equal. Its connection (\<^verbatim>\<open>orm.em.getConnection()\<close>) and
  its migrator (\<^verbatim>\<open>orm.getMigrator()\<close>) are named by the instance.
\<close>

type_synonym orm = nat

text \<open>
  The options given to \<^verbatim>\<open>MikroORM.init\<close>. The entities, the host, the port, the
  user, the password, the driver and the debug flag are the same in the base options and
  in the tenant options and are left out.
\<close>

record options =
  dbName :: string
  migrations_tableName :: string
  migrations_path :: string
  migrations_pathTs :: string

datatype level = ConsoleLog | ConsoleError | ConsoleWarn

text \<open>
  Every call that leaves the process is recorded with its outcome (\<open>Inl\<close> a thrown
  error, \<open>Inr\<close> the value returned), and every console call with its arguments:
  \<^item> \<open>Init\<close>: \<^verbatim>\<open>MikroORM.init(options)\<close>;
  \<^item> \<open>Execute\<close>: \<^verbatim>\<open>connection.execute(sql, params)\<close> on the connection of an
    instance, returning a number of rows (the code reads \<^verbatim>\<open>result.length\<close> only);
  \<^item> \<open>MigratorUp\<close>: \<^verbatim>\<open>orm.getMigrator()\<close> followed by \<^verbatim>\<open>migrator.up()\<close>;
  \<^item> \<open>ReadFile\<close>: \<^verbatim>\<open>fs.readFileSync(schemaPath, 'utf8')\<close>;
  \<^item> \<open>Close\<close>: \<^verbatim>\<open>orm.close()\<close>.
\<close>

datatype event =
    Init options "jserror + orm"
  | Execute orm string "string list" "jserror + nat"
  | MigratorUp orm "jserror + unit"
  | ReadFile "jserror + string"
  | Close orm "jserror + unit"
  | Console level "string list"

text \<open>
  The database server, the ORM library and the file system are a parameter of the
  model: each call is answered from the history of all events so far, so an answer may
  depend on everything that happened before it. \<open>DB_NAME\<close> is \<^verbatim>\<open>env.DB_NAME\<close> of
  the configuration.
\<close>

record sys =
  DB_NAME :: string
  ormInit :: "event list \<Rightarrow> options \<Rightarrow> jserror + orm"
  connExecute :: "event list \<Rightarrow> orm \<Rightarrow> string \<Rightarrow> string list \<Rightarrow> jserror + nat"
  migratorUp :: "event list \<Rightarrow> orm \<Rightarrow> jserror + unit"
  readFileSync :: "event list \<Rightarrow> jserror + string"
  ormClose :: "event list \<Rightarrow> orm \<Rightarrow> jserror + unit"

section \<open>The tenant manager\<close>

text \<open>
  The two private fields of \<^verbatim>\<open>TenantManager\<close>, and the events so far. The
  \<^verbatim>\<open>Map\<close> keeps its keys in insertion order, so it is an association list:
  \<^verbatim>\<open>has\<close> and \<^verbatim>\<open>get\<close> are \<^const>\<open>map_of\<close>, \<^verbatim>\<open>set\<close> is
  \<^const>\<open>AList.update\<close> (a new key goes to the end, an old key keeps its place).
\<close>

record state =
  tenantOrmInstances :: "(string \<times> orm) list"
  baseOrm :: "orm option"
  trace :: "event list"

definition has :: "state \<Rightarrow> string \<Rightarrow> bool" where
  "has s tenantId = (map_of (tenantOrmInstances s) tenantId \<noteq> None)"

definition record_event :: "event \<Rightarrow> state \<Rightarrow> state" where
  "record_event e s = s\<lparr>trace := trace s @ [e]\<rparr>"

definition console :: "level \<Rightarrow> string list \<Rightarrow> state \<Rightarrow> state" where
  "console l args s = record_event (Console l args) s"

definition init :: "sys \<Rightarrow> options \<Rightarrow> state \<Rightarrow> (jserror + orm) \<times> state" where
  "init w opts s = (let r = ormInit w (trace s) opts in (r, record_event (Init opts r) s))"

definition execute ::
  "sys \<Rightarrow> orm \<Rightarrow> string \<Rightarrow> string list \<Rightarrow> state \<Rightarrow> (jserror + nat) \<times> state" where
  "execute w conn sql params s =
     (let r = connExecute w (trace s) conn sql params
      in (r, record_event (Execute conn sql params r) s))"

definition up :: "sys \<Rightarrow> orm \<Rightarrow> state \<Rightarrow> (jserror + unit) \<times> state" where
  "up w orm s = (let r = migratorUp w (trace s) orm in (r, record_event (MigratorUp orm r) s))"

definition readFile :: "sys \<Rightarrow> state \<Rightarrow> (jserror + string) \<times> state" where
  "readFile w s = (let r = readFileSync w (trace s) in (r, record_event (ReadFile r) s))"

definition close :: "sys \<Rightarrow> orm \<Rightarrow> state \<Rightarrow> (jserror + unit) \<times> state" where
  "close w orm s = (let r = ormClose w (trace s) orm in (r, record_event (Close orm r) s))"

text \<open>\<^verbatim>\<open>mikro-orm.config\<close>: the base options.\<close>

definition baseOptions :: "sys \<Rightarrow> options" where
  "baseOptions w =
     \<lparr>dbName = DB_NAME w,
      migrations_tableName = ''mikro_orm_migrations'',
      migrations_path = ''./dist/migrations'',
      migrations_pathTs = ''./src/migrations''\<rparr>"

text \<open>\<^verbatim>\<open>getBaseORM\<close>\<close>

definition getBaseORM :: "sys \<Rightarrow> state \<Rightarrow> (jserror + orm) \<times> state" where
  "getBaseORM w s =
     (case baseOrm s of
        None \<Rightarrow>
          (case init w (baseOptions w) s of
             (Inl e, s1) \<Rightarrow> (Inl e, s1)
           | (Inr orm, s1) \<Rightarrow> (Inr orm, s1\<lparr>baseOrm := Some orm\<rparr>))
      | Some orm \<Rightarrow> (Inr orm, s))"

text \<open>
  \<^verbatim>\<open>getTenantORM\<close>, lines 28 to 42: the existence check and the creation of the
  database, inside one \<^verbatim>\<open>try\<close> whose \<^verbatim>\<open>catch\<close> writes the message to the
  console.
\<close>

definition checkCreateDatabase :: "sys \<Rightarrow> orm \<Rightarrow> string \<Rightarrow> state \<Rightarrow> state" where
  "checkCreateDatabase w base tenantId s =
     (case execute w base ''SELECT 1 FROM pg_database WHERE datname = $1''
             [''tenant_'' @ tenantId] s of
        (Inl error, s1) \<Rightarrow>
          console ConsoleError
            [''Error checking/creating tenant database: '' @ message error] s1
      | (Inr result, s1) \<Rightarrow>
          if result = 0 then
            (case execute w base (''CREATE DATABASE tenant_'' @ tenantId) [] s1 of
               (Inl error, s2) \<Rightarrow>
                 console ConsoleError
                   [''Error checking/creating tenant database: '' @ message error] s2
             | (Inr _, s2) \<Rightarrow>
                 console ConsoleLog
                   [''Created new database for tenant: tenant_'' @ tenantId] s2)
          else s1)"

text \<open>Lines 45 to 53: the options of the tenant's instance.\<close>

definition tenantOptions :: "sys \<Rightarrow> string \<Rightarrow> options" where
  "tenantOptions w tenantId =
     (baseOptions w)
       \<lparr>dbName := ''tenant_'' @ tenantId,
        migrations_tableName := ''mikro_orm_migrations_tenant'',
        migrations_path := ''./dist/migrations/tenant'',
        migrations_pathTs := ''./src/migrations/tenant''\<rparr>"

text \<open>
  Lines 73 to 75 (and lines 36 to 38 of \<^verbatim>\<open>index.ts\<close>):
  \<^verbatim>\<open>schema.split(';').map(s => s.trim()).filter(s => s.length > 0)\<close>
\<close>

definition statements :: "string \<Rightarrow> string list" where
  "statements schema = filter (\<lambda>s. length s > 0) (map trim (split CHR '';'' schema))"

text \<open>
  Lines 79 to 85 (and lines 42 to 48 of \<^verbatim>\<open>index.ts\<close>, where the text of the
  warning differs): every statement is executed inside a \<^verbatim>\<open>try\<close> of its own.
\<close>

fun executeStatements :: "sys \<Rightarrow> orm \<Rightarrow> string \<Rightarrow> string list \<Rightarrow> state \<Rightarrow> state" where
  "executeStatements w conn warning [] s = s"
| "executeStatements w conn warning (statement # rest) s =
     (case execute w conn statement [] s of
        (Inl err, s1) \<Rightarrow>
          executeStatements w conn warning rest
            (console ConsoleWarn [warning @ message err] s1)
      | (Inr _, s1) \<Rightarrow> executeStatements w conn warning rest s1)"

text \<open>Lines 67 to 90: the schema created from \<^verbatim>\<open>schema.sql\<close>.\<close>

definition createSchemaManually :: "sys \<Rightarrow> orm \<Rightarrow> string \<Rightarrow> state \<Rightarrow> state" where
  "createSchemaManually w orm tenantId s =
     (case readFile w (console ConsoleLog [''Creating tenant schema manually...''] s) of
        (Inl schemaError, s1) \<Rightarrow>
          console ConsoleError
            [''Error creating schema for tenant '' @ tenantId @ '':'', message schemaError] s1
      | (Inr schema, s1) \<Rightarrow>
          console ConsoleLog [''Schema created successfully for tenant '' @ tenantId]
            (executeStatements w orm ''Warning executing statement for tenant: ''
               (statements schema) s1))"

text \<open>Lines 58 to 91: the migrations, and the manual schema when they fail.\<close>

definition runMigrations :: "sys \<Rightarrow> orm \<Rightarrow> string \<Rightarrow> state \<Rightarrow> state" where
  "runMigrations w orm tenantId s =
     (case up w orm s of
        (Inr _, s1) \<Rightarrow> console ConsoleLog [''Migrations applied for tenant '' @ tenantId] s1
      | (Inl error, s1) \<Rightarrow>
          createSchemaManually w orm tenantId
            (console ConsoleLog [''Creating schema manually for tenant '' @ tenantId @ ''...'']
               (console ConsoleLog
                  [''Migrations not applied for tenant '' @ tenantId @ '': '' @ message error]
                  s1)))"

text \<open>
  \<^verbatim>\<open>getTenantORM\<close>. The value returned is what \<^verbatim>\<open>Map.get\<close> returns, an
  instance or \<^verbatim>\<open>undefined\<close> (\<open>None\<close>).
\<close>

definition getTenantORM :: "sys \<Rightarrow> string \<Rightarrow> state \<Rightarrow> (jserror + orm option) \<times> state" where
  "getTenantORM w tenantId s =
     (if \<not> has s tenantId then
        (case getBaseORM w s of
           (Inl e, s1) \<Rightarrow> (Inl e, s1)
         | (Inr base, s1) \<Rightarrow>
             (case init w (tenantOptions w tenantId)
                     (checkCreateDatabase w base tenantId s1) of
                (Inl e, s2) \<Rightarrow> (Inl e, s2)
              | (Inr orm, s2) \<Rightarrow>
                  (let s3 = runMigrations w orm tenantId s2;
                       s4 = s3\<lparr>tenantOrmInstances :=
                                 AList.update tenantId orm (tenantOrmInstances s3)\<rparr>
                   in (Inr (map_of (tenantOrmInstances s4) tenantId), s4))))
      else (Inr (map_of (tenantOrmInstances s) tenantId), s))"

text \<open>\<^verbatim>\<open>closeConnections\<close>: the loop over the entries of the map.\<close>

fun closeEntries :: "sys \<Rightarrow> (string \<times> orm) list \<Rightarrow> state \<Rightarrow> (jserror + unit) \<times> state" where
  "closeEntries w [] s = (Inr (), s)"
| "closeEntries w ((_, orm) # rest) s =
     (case close w orm s of
        (Inl e, s1) \<Rightarrow> (Inl e, s1)
      | (Inr _, s1) \<Rightarrow> closeEntries w rest s1)"

definition closeConnections :: "sys \<Rightarrow> state \<Rightarrow> (jserror + unit) \<times> state" where
  "closeConnections w s =
     (case baseOrm s of
        Some orm \<Rightarrow>
          (case close w orm s of
             (Inl e, s1) \<Rightarrow> (Inl e, s1)
           | (Inr _, s1) \<Rightarrow> closeEntries w (tenantOrmInstances s1) s1)
      | None \<Rightarrow> closeEntries w (tenantOrmInstances s) s)"

section \<open>The tenant middleware\<close>

text \<open>
  Of a request the middleware reads the header \<^verbatim>\<open>x-tenant-id\<close> (a string, or
  \<^verbatim>\<open>undefined\<close> when the request has none) and \<^verbatim>\<open>req.hostname\<close>. The host
  name is a string, or \<^verbatim>\<open>undefined\<close> when the \<^verbatim>\<open>Host\<close> header of the request
  is empty or absent (the getter of Express returns nothing then).
\<close>

record request =
  x_tenant_id :: "string option"
  hostname :: "string option"

text \<open>
  What the middleware does with the request:
  \<^item> \<open>Response\<close>: a JSON response with a status and a message;
  \<^item> \<open>Next\<close>: \<^verbatim>\<open>next()\<close> after \<^verbatim>\<open>tenantId\<close> and \<^verbatim>\<open>tenantORM\<close> were
    attached to the request;
  \<^item> \<open>Rejected\<close>: an error thrown outside the \<^verbatim>\<open>try\<close> rejects the promise of the
    middleware; no response is sent and \<^verbatim>\<open>next()\<close> is not called (the handler that
    \<^verbatim>\<open>routes/index.ts\<close> installs calls the middleware and drops its promise).
\<close>

datatype outcome =
    Response nat string
  | Next string "orm option"
  | Rejected jserror

text \<open>\<^verbatim>\<open>xs[0]\<close>\<close>

definition first :: "'a list \<Rightarrow> 'a option" where
  "first xs = (case xs of [] \<Rightarrow> None | x # _ \<Rightarrow> Some x)"

text \<open>
  \<^verbatim>\<open>req.hostname.split('.')[0]\<close>: reading \<^verbatim>\<open>split\<close> of \<^verbatim>\<open>undefined\<close> throws
  a \<^verbatim>\<open>TypeError\<close>.
\<close>

definition firstLabel :: "request \<Rightarrow> jserror + string option" where
  "firstLabel req =
     (case hostname req of
        None \<Rightarrow>
          Inl (JsError ''TypeError'' ''Cannot read properties of undefined (reading 'split')'')
      | Some host \<Rightarrow> Inr (first (split CHR ''.'' host)))"

text \<open>
  Lines 128 and 129 of the middleware:
  \<^verbatim>\<open>req.headers['x-tenant-id'] as string || req.hostname.split('.')[0]\<close>.
  The right operand of \<^verbatim>\<open>||\<close> is evaluated only when the left one is
  \<^verbatim>\<open>undefined\<close> or the empty string.
\<close>

definition resolveTenantId :: "request \<Rightarrow> jserror + string option" where
  "resolveTenantId req =
     (case x_tenant_id req of
        None \<Rightarrow> firstLabel req
      | Some x \<Rightarrow> if x = [] then firstLabel req else Inr (Some x))"

definition tenantMiddleware :: "sys \<Rightarrow> request \<Rightarrow> state \<Rightarrow> outcome \<times> state" where
  "tenantMiddleware w req s =
     (case resolveTenantId req of
        Inl e \<Rightarrow> (Rejected e, s)
      | Inr None \<Rightarrow> (Response 400 ''Tenant identification required'', s)
      | Inr (Some tenantId) \<Rightarrow>
          if tenantId = [] then (Response 400 ''Tenant identification required'', s)
          else
            (case getTenantORM w tenantId s of
               (Inr tenantORM, s1) \<Rightarrow> (Next tenantId tenantORM, s1)
             | (Inl error, s1) \<Rightarrow>
                 (Response 500 ''Error initializing tenant context'',
                  console ConsoleError
                    [''Error initializing tenant context: '' @ errorToString error] s1)))"

section \<open>The start of the process\<close>

text \<open>
  \<^verbatim>\<open>bootstrap\<close> in \<^verbatim>\<open>index.ts\<close>, lines 29 to 53: the schema of the base
  database created from \<^verbatim>\<open>schema.sql\<close> when the migrations were not applied.
\<close>

definition bootstrapCreateSchema :: "sys \<Rightarrow> orm \<Rightarrow> state \<Rightarrow> state" where
  "bootstrapCreateSchema w orm s =
     (case readFile w (console ConsoleLog [''Creating schema manually...''] s) of
        (Inl schemaError, s1) \<Rightarrow>
          console ConsoleError [''Error creating schema:'', message schemaError] s1
      | (Inr schema, s1) \<Rightarrow>
          console ConsoleLog [''Schema created successfully'']
            (executeStatements w orm ''Warning executing statement: ''
               (statements schema) s1))"

section \<open>Calls that overlap\<close>

text \<open>
  \<^verbatim>\<open>getTenantORM\<close> is an \<^verbatim>\<open>async\<close> function: it runs until its next
  \<^verbatim>\<open>await\<close> and gives way to other calls there. A call in progress is the
  \<^verbatim>\<open>await\<close> it is suspended at, with the local variables it still needs:
  \<^item> \<open>Start\<close>: called, nothing run yet;
  \<^item> \<open>AwaitBaseInit\<close>: in \<^verbatim>\<open>getBaseORM\<close>, at \<^verbatim>\<open>await MikroORM.init(baseOptions)\<close>;
  \<^item> \<open>AwaitBase\<close>: at \<^verbatim>\<open>await this.getBaseORM()\<close>, whose value is known;
  \<^item> \<open>AwaitCheck\<close>, \<open>AwaitCreate\<close>: at the existence query and at the
    \<^verbatim>\<open>CREATE DATABASE\<close> command;
  \<^item> \<open>AwaitTenantInit\<close>: at \<^verbatim>\<open>await MikroORM.init(tenantOptions)\<close>;
  \<^item> \<open>AwaitUp\<close>: at \<^verbatim>\<open>await migrator.up()\<close>;
  \<^item> \<open>AwaitStatement\<close>: at \<^verbatim>\<open>await tenantConnection.execute(statement)\<close>, with
    the statements still to come;
  \<^item> \<open>Returned\<close>: the promise is settled.

  One step of a call completes the operation it waits for (the operation is answered and
  recorded at that moment) and runs the code up to the next \<^verbatim>\<open>await\<close>; between
  two \<^verbatim>\<open>await\<close>s nothing else runs, as in the single thread of JavaScript.
\<close>

datatype task =
    Start
  | AwaitBaseInit
  | AwaitBase orm
  | AwaitCheck orm
  | AwaitCreate orm
  | AwaitTenantInit
  | AwaitUp orm
  | AwaitStatement orm string "string list"
  | Returned "jserror + orm option"

text \<open>Lines 93 and 96: the instance is put into the map and read back.\<close>

definition finish :: "string \<Rightarrow> orm \<Rightarrow> state \<Rightarrow> task \<times> state" where
  "finish tenantId orm s =
     (let s1 = s\<lparr>tenantOrmInstances := AList.update tenantId orm (tenantOrmInstances s)\<rparr>
      in (Returned (Inr (map_of (tenantOrmInstances s1) tenantId)), s1))"

text \<open>The head of the loop over the statements: the next one is sent, or the loop ends.\<close>

fun nextStatement :: "string \<Rightarrow> orm \<Rightarrow> string list \<Rightarrow> state \<Rightarrow> task \<times> state" where
  "nextStatement tenantId orm [] s =
     finish tenantId orm
       (console ConsoleLog [''Schema created successfully for tenant '' @ tenantId] s)"
| "nextStatement tenantId orm (statement # rest) s = (AwaitStatement orm statement rest, s)"

text \<open>One step of a call of \<^verbatim>\<open>getTenantORM(tenantId)\<close>.\<close>

fun step :: "sys \<Rightarrow> string \<Rightarrow> task \<Rightarrow> state \<Rightarrow> task \<times> state" where
  "step w tenantId Start s =
     (if \<not> has s tenantId then
        (case baseOrm s of
           None \<Rightarrow> (AwaitBaseInit, s)
         | Some orm \<Rightarrow> (AwaitBase orm, s))
      else (Returned (Inr (map_of (tenantOrmInstances s) tenantId)), s))"
| "step w tenantId AwaitBaseInit s =
     (case init w (baseOptions w) s of
        (Inl e, s1) \<Rightarrow> (Returned (Inl e), s1)
      | (Inr orm, s1) \<Rightarrow> (AwaitBase orm, s1\<lparr>baseOrm := Some orm\<rparr>))"
| "step w tenantId (AwaitBase base) s = (AwaitCheck base, s)"
| "step w tenantId (AwaitCheck base) s =
     (case execute w base ''SELECT 1 FROM pg_database WHERE datname = $1''
             [''tenant_'' @ tenantId] s of
        (Inl error, s1) \<Rightarrow>
          (AwaitTenantInit,
           console ConsoleError
             [''Error checking/creating tenant database: '' @ message error] s1)
      | (Inr result, s1) \<Rightarrow>
          if result = 0 then (AwaitCreate base, s1) else (AwaitTenantInit, s1))"
| "step w tenantId (AwaitCreate base) s =
     (case execute w base (''CREATE DATABASE tenant_'' @ tenantId) [] s of
        (Inl error, s1) \<Rightarrow>
          (AwaitTenantInit,
           console ConsoleError
             [''Error checking/creating tenant database: '' @ message error] s1)
      | (Inr _, s1) \<Rightarrow>
          (AwaitTenantInit,
           console ConsoleLog [''Created new database for tenant: tenant_'' @ tenantId] s1))"
| "step w tenantId AwaitTenantInit s =
     (case init w (tenantOptions w tenantId) s of
        (Inl e, s1) \<Rightarrow> (Returned (Inl e), s1)
      | (Inr orm, s1) \<Rightarrow> (AwaitUp orm, s1))"
| "step w tenantId (AwaitUp orm) s =
     (case up w orm s of
        (Inr _, s1) \<Rightarrow>
          finish tenantId orm
            (console ConsoleLog [''Migrations applied for tenant '' @ tenantId] s1)
      | (Inl error, s1) \<Rightarrow>
          (case readFile w
                  (console ConsoleLog [''Creating tenant schema manually...'']
                     (console ConsoleLog
                        [''Creating schema manually for tenant '' @ tenantId @ ''...'']
                        (console ConsoleLog
                           [''Migrations not applied for tenant '' @ tenantId @ '': '' @
                            message error]
                           s1))) of
             (Inl schemaError, s2) \<Rightarrow>
               finish tenantId orm
                 (console ConsoleError
                    [''Error creating schema for tenant '' @ tenantId @ '':'',
                     message schemaError] s2)
           | (Inr schema, s2) \<Rightarrow> nextStatement tenantId orm (statements schema) s2))"
| "step w tenantId (AwaitStatement orm statement rest) s =
     (case execute w orm statement [] s of
        (Inl err, s1) \<Rightarrow>
          nextStatement tenantId orm rest
            (console ConsoleWarn
               [''Warning executing statement for tenant: '' @ message err] s1)
      | (Inr _, s1) \<Rightarrow> nextStatement tenantId orm rest s1)"
| "step w tenantId (Returned r) s = (Returned r, s)"

text \<open>
  How far a call is from its end: every step moves it to a later \<^verbatim>\<open>await\<close> or to
  the next statement of the loop.
\<close>

fun stage :: "task \<Rightarrow> nat" where
  "stage Start = 8"
| "stage AwaitBaseInit = 7"
| "stage (AwaitBase _) = 6"
| "stage (AwaitCheck _) = 5"
| "stage (AwaitCreate _) = 4"
| "stage AwaitTenantInit = 3"
| "stage (AwaitUp _) = 2"
| "stage (AwaitStatement _ _ _) = 1"
| "stage (Returned _) = 0"

fun pending :: "task \<Rightarrow> nat" where
  "pending (AwaitStatement _ _ rest) = length rest"
| "pending _ = 0"

text \<open>A call that takes all its steps with no other call in between.\<close>

function (sequential) complete ::
  "sys \<Rightarrow> string \<Rightarrow> task \<Rightarrow> state \<Rightarrow> (jserror + orm option) \<times> state" where
  "complete w tenantId (Returned r) s = (r, s)"
| "complete w tenantId k s = (case step w tenantId k s of (k', s') \<Rightarrow> complete w tenantId k' s')"
  by pat_completeness auto
termination
proof -
  have next_less: "stage k' = 0 \<or> (stage k' = 1 \<and> Suc (pending k') = length sts)"
    if "nextStatement t orm sts s = (k', s')" for t orm sts s k' s'
    using that by (cases sts) (auto simp: finish_def Let_def)
  have less: "stage k' < stage k \<or> (stage k' = stage k \<and> pending k' < pending k)"
    if "step w t k s = (k', s')" and "\<forall>r. k \<noteq> Returned r" for w t k s k' s'
  proof (cases k)
    case (AwaitUp orm)
    with that(1) show ?thesis
      by (auto simp: finish_def Let_def split: prod.splits sum.splits dest!: next_less)
  next
    case (AwaitStatement orm st rest)
    with that(1) show ?thesis
      by (auto split: prod.splits sum.splits dest!: next_less)
  qed (use that in \<open>auto split: prod.splits sum.splits option.splits if_splits\<close>)
  have decreases: "((w, t, k', s'), (w, t, k, s)) \<in>
           measures [\<lambda>(w, t, k, s). stage k, \<lambda>(w, t, k, s). pending k]"
    if "(k', s') = step w t k s" and "\<forall>r. k \<noteq> Returned r" for w t k s k' s'
    using less [OF that(1) [symmetric] that(2)] by auto
  show ?thesis
    by (relation "measures [\<lambda>(w, t, k, s). stage k, \<lambda>(w, t, k, s). pending k]")
      (simp, (rule decreases, assumption, simp)+)
qed

text \<open>
  Several calls in progress, taking their steps in the order of a schedule: each number
  of the schedule names the call that takes the next step.
\<close>

fun interleave ::
  "sys \<Rightarrow> nat list \<Rightarrow> (string \<times> task) list \<Rightarrow> state \<Rightarrow> (string \<times> task) list \<times> state" where
  "interleave w [] tasks s = (tasks, s)"
| "interleave w (i # schedule) tasks s =
     (if i < length tasks then
        (case tasks ! i of (tenantId, k) \<Rightarrow>
           (case step w tenantId k s of (k', s') \<Rightarrow>
              interleave w schedule (tasks[i := (tenantId, k')]) s'))
      else interleave w schedule tasks s)"

section \<open>Reading the events of a run\<close>

text \<open>The events recorded between two states.\<close>

definition emitted :: "state \<Rightarrow> state \<Rightarrow> event list" where
  "emitted s s' = drop (length (trace s)) (trace s')"

fun inits :: "event list \<Rightarrow> (options \<times> (jserror + orm)) list" where
  "inits [] = []"
| "inits (Init opts r # es) = (opts, r) # inits es"
| "inits (_ # es) = inits es"

fun executes :: "event list \<Rightarrow> (orm \<times> string \<times> string list \<times> (jserror + nat)) list" where
  "executes [] = []"
| "executes (Execute conn sql params r # es) = (conn, sql, params, r) # executes es"
| "executes (_ # es) = executes es"

fun migrations :: "event list \<Rightarrow> (orm \<times> (jserror + unit)) list" where
  "migrations [] = []"
| "migrations (MigratorUp orm r # es) = (orm, r) # migrations es"
| "migrations (_ # es) = migrations es"

fun reads :: "event list \<Rightarrow> (jserror + string) list" where
  "reads [] = []"
| "reads (ReadFile r # es) = r # reads es"
| "reads (_ # es) = reads es"

fun closes :: "event list \<Rightarrow> (orm \<times> (jserror + unit)) list" where
  "closes [] = []"
| "closes (Close orm r # es) = (orm, r) # closes es"
| "closes (_ # es) = closes es"

fun consoles :: "event list \<Rightarrow> (level \<times> string list) list" where
  "consoles [] = []"
| "consoles (Console l args # es) = (l, args) # consoles es"
| "consoles (_ # es) = consoles es"

text \<open>The events of a run before the instance of the tenant is opened.\<close>

fun isInit :: "options \<Rightarrow> event \<Rightarrow> bool" where
  "isInit opts (Init opts' r) = (opts' = opts)"
| "isInit opts _ = False"

definition beforeConnect :: "sys \<Rightarrow> string \<Rightarrow> event list \<Rightarrow> event list" where
  "beforeConnect w tenantId es = takeWhile (\<lambda>e. \<not> isInit (tenantOptions w tenantId) e) es"

text \<open>The instances \<^verbatim>\<open>closeConnections\<close> has to close, in the order of its code.\<close>

definition handles :: "state \<Rightarrow> orm list" where
  "handles s =
     (case baseOrm s of Some orm \<Rightarrow> [orm] | None \<Rightarrow> []) @ map snd (tenantOrmInstances s)"

text \<open>
  The events of the loop over the statements when the statements \<open>sts\<close> have the
  outcomes \<open>outs\<close>: each statement is executed, and a warning follows a failure.
\<close>

definition statementTrace ::
  "orm \<Rightarrow> string \<Rightarrow> string list \<Rightarrow> (jserror + nat) list \<Rightarrow> event list" where
  "statementTrace conn warning sts outs =
     concat (map2 (\<lambda>statement x. Execute conn statement [] x #
                     (case x of Inl err \<Rightarrow> [Console ConsoleWarn [warning @ message err]]
                              | Inr _ \<Rightarrow> []))
               sts outs)"

text \<open>
  \<^verbatim>\<open>pieces.join(sep)\<close> for a separator of one character, to say what
  \<^const>\<open>split\<close> computes.
\<close>

fun joinWith :: "char \<Rightarrow> string list \<Rightarrow> string" where
  "joinWith sep [] = []"
| "joinWith sep [p] = p"
| "joinWith sep (p # q # ps) = p @ sep # joinWith sep (q # ps)"

text \<open>
  The name of a database written without quotes, as the scanner of PostgreSQL reads an
  identifier: a letter, an underscore or a byte above 127, followed by letters,
  underscores, digits, dollar signs and bytes above 127.
\<close>

definition identStart :: "char \<Rightarrow> bool" where
  "identStart c =
     (let n = of_char c :: nat
      in (65 \<le> n \<and> n \<le> 90) \<or> (97 \<le> n \<and> n \<le> 122) \<or> 128 \<le> n \<or> c = CHR ''_'')"

definition identCont :: "char \<Rightarrow> bool" where
  "identCont c =
     (let n = of_char c :: nat
      in identStart c \<or> (48 \<le> n \<and> n \<le> 57) \<or> c = CHR ''$'')"

definition plainIdentifier :: "string \<Rightarrow> bool" where
  "plainIdentifier s =
     (case s of [] \<Rightarrow> False | c # cs \<Rightarrow> identStart c \<and> list_all identCont cs)"

section \<open>A database server to run the model on\<close>

text \<open>
  A server on which only the base database exists. A database can be opened once it was
  created; \<^verbatim>\<open>CREATE DATABASE\<close> fails on a name that is not an identifier and on a
  database that exists; any other statement succeeds the first time on a connection and
  fails when it is repeated; the migrations apply, the schema file has three statements,
  and every instance closes.
\<close>

fun createdDatabase :: "string \<Rightarrow> event \<Rightarrow> bool" where
  "createdDatabase name (Execute conn sql params (Inr n)) = (sql = ''CREATE DATABASE '' @ name)"
| "createdDatabase name _ = False"

fun executedOn :: "orm \<Rightarrow> string \<Rightarrow> event \<Rightarrow> bool" where
  "executedOn conn sql (Execute conn' sql' params (Inr n)) = (conn' = conn \<and> sql' = sql)"
| "executedOn conn sql _ = False"

definition cluster :: sys where
  "cluster =
     \<lparr>DB_NAME = ''farm_tenants'',
      ormInit = (\<lambda>h opts.
        if dbName opts = ''farm_tenants'' \<or> list_ex (createdDatabase (dbName opts)) h
        then Inr (length h)
        else Inl (JsError ''error'' (''database '' @ dbName opts @ '' does not exist''))),
      connExecute = (\<lambda>h conn sql params.
        if sql = ''SELECT 1 FROM pg_database WHERE datname = $1''
        then Inr (case params of
                    [name] \<Rightarrow> if list_ex (createdDatabase name) h then 1 else 0
                  | _ \<Rightarrow> 0)
        else if take 16 sql = ''CREATE DATABASE ''
        then (if \<not> plainIdentifier (drop 16 sql)
              then Inl (JsError ''error'' ''syntax error'')
              else if list_ex (createdDatabase (drop 16 sql)) h
              then Inl (JsError ''error'' (''database '' @ drop 16 sql @ '' already exists''))
              else Inr 0)
        else if list_ex (executedOn conn sql) h
        then Inl (JsError ''error'' ''relation already exists'')
        else Inr 0),
      migratorUp = (\<lambda>h orm. Inr ()),
      readFileSync = (\<lambda>h.
        Inr ''CREATE TABLE crop (id UUID); CREATE TABLE crop (id UUID); CREATE TABLE harvest (id UUID); ''),
      ormClose = (\<lambda>h orm. Inr ())\<rparr>"

text \<open>The same server when the migrations cannot be applied.\<close>

definition clusterWithoutMigrations :: sys where
  "clusterWithoutMigrations =
     cluster\<lparr>migratorUp := (\<lambda>h orm. Inl (JsError ''MigrationError'' ''no migrations''))\<rparr>"

text \<open>The same server when the instance numbered 1 cannot be closed.\<close>

definition clusterStuck :: sys where
  "clusterStuck =
     cluster\<lparr>ormClose := (\<lambda>h orm. if orm = 1 then Inl (JsError ''Error'' ''stuck'') else Inr ())\<rparr>"

text \<open>The tenant manager of a process that has just started.\<close>

definition started :: state where
  "started = \<lparr>tenantOrmInstances = [], baseOrm = None, trace = []\<rparr>"

text \<open>
  The tenant manager of a process that has just started on a server where an earlier
  process has created the database of the tenant \<^verbatim>\<open>acme\<close>.
\<close>

definition restarted :: state where
  "restarted =
     \<lparr>tenantOrmInstances = [], baseOrm = None,
      trace = [Execute 0 ''CREATE DATABASE tenant_acme'' [] (Inr 0)]\<rparr>"

text \<open>A tenant manager with the base instance and the instances of two tenants.\<close>

definition twoTenants :: state where
  "twoTenants =
     \<lparr>tenantOrmInstances = [(''acme'', 1), (''birch'', 2)], baseOrm = Some 0, trace = []\<rparr>"

section \<open>The shape of a run\<close>

text \<open>
  The events \<^verbatim>\<open>getTenantORM\<close> can record for a tenant that is not cached, block by
  block: what \<^verbatim>\<open>getBaseORM\<close> records, what the check and the creation of the
  database record, what the manual schema and the migrations record.
\<close>

inductive baseEvents :: "sys \<Rightarrow> orm option \<Rightarrow> jserror + orm \<Rightarrow> event list \<Rightarrow> bool" for w where
  cached: "baseEvents w (Some b) (Inr b) []"
| opened: "baseEvents w None x [Init (baseOptions w) x]"

inductive checkCreateEvents :: "orm \<Rightarrow> string \<Rightarrow> event list \<Rightarrow> bool" for b t where
  check_failed:
    "checkCreateEvents b t
       [Execute b ''SELECT 1 FROM pg_database WHERE datname = $1'' [''tenant_'' @ t] (Inl e),
        Console ConsoleError [''Error checking/creating tenant database: '' @ message e]]"
| found:
    "n \<noteq> 0 \<Longrightarrow> checkCreateEvents b t
       [Execute b ''SELECT 1 FROM pg_database WHERE datname = $1'' [''tenant_'' @ t] (Inr n)]"
| create_failed:
    "checkCreateEvents b t
       [Execute b ''SELECT 1 FROM pg_database WHERE datname = $1'' [''tenant_'' @ t] (Inr 0),
        Execute b (''CREATE DATABASE tenant_'' @ t) [] (Inl e),
        Console ConsoleError [''Error checking/creating tenant database: '' @ message e]]"
| created:
    "checkCreateEvents b t
       [Execute b ''SELECT 1 FROM pg_database WHERE datname = $1'' [''tenant_'' @ t] (Inr 0),
        Execute b (''CREATE DATABASE tenant_'' @ t) [] (Inr n),
        Console ConsoleLog [''Created new database for tenant: tenant_'' @ t]]"

inductive schemaEvents :: "orm \<Rightarrow> string \<Rightarrow> event list \<Rightarrow> bool" for orm t where
  unreadable:
    "schemaEvents orm t
       [Console ConsoleLog [''Creating tenant schema manually...''], ReadFile (Inl e),
        Console ConsoleError [''Error creating schema for tenant '' @ t @ '':'', message e]]"
| executed:
    "length outs = length (statements schema) \<Longrightarrow>
     schemaEvents orm t
       ([Console ConsoleLog [''Creating tenant schema manually...''], ReadFile (Inr schema)] @
        statementTrace orm ''Warning executing statement for tenant: '' (statements schema) outs @
        [Console ConsoleLog [''Schema created successfully for tenant '' @ t]])"

inductive migrationEvents :: "orm \<Rightarrow> string \<Rightarrow> event list \<Rightarrow> bool" for orm t where
  applied:
    "migrationEvents orm t
       [MigratorUp orm (Inr ()), Console ConsoleLog [''Migrations applied for tenant '' @ t]]"
| fallback:
    "schemaEvents orm t E \<Longrightarrow>
     migrationEvents orm t
       ([MigratorUp orm (Inl e),
         Console ConsoleLog [''Migrations not applied for tenant '' @ t @ '': '' @ message e],
         Console ConsoleLog [''Creating schema manually for tenant '' @ t @ ''...'']] @ E)"

inductive tenantEvents ::
  "sys \<Rightarrow> string \<Rightarrow> orm option \<Rightarrow> orm option \<Rightarrow> jserror + orm option \<Rightarrow> event list \<Rightarrow> bool"
  for w t where
  base_failed: "tenantEvents w t None None (Inl e) [Init (baseOptions w) (Inl e)]"
| connect_failed:
    "baseEvents w bo (Inr b) B \<Longrightarrow> checkCreateEvents b t C \<Longrightarrow>
     tenantEvents w t bo (Some b) (Inl e) (B @ C @ [Init (tenantOptions w t) (Inl e)])"
| provisioned:
    "baseEvents w bo (Inr b) B \<Longrightarrow> checkCreateEvents b t C \<Longrightarrow> migrationEvents orm t M \<Longrightarrow>
     tenantEvents w t bo (Some b) (Inr (Some orm))
       (B @ C @ [Init (tenantOptions w t) (Inr orm)] @ M)"

section \<open>Properties\<close>

subsection \<open>Events and their projections\<close>

lemma inits_append [simp]: "inits (xs @ ys) = inits xs @ inits ys"
  by (induction xs rule: inits.induct) simp_all

lemma executes_append [simp]: "executes (xs @ ys) = executes xs @ executes ys"
  by (induction xs rule: executes.induct) simp_all

lemma migrations_append [simp]: "migrations (xs @ ys) = migrations xs @ migrations ys"
  by (induction xs rule: migrations.induct) simp_all

lemma reads_append [simp]: "reads (xs @ ys) = reads xs @ reads ys"
  by (induction xs rule: reads.induct) simp_all

lemma closes_append [simp]: "closes (xs @ ys) = closes xs @ closes ys"
  by (induction xs rule: closes.induct) simp_all

lemma consoles_append [simp]: "consoles (xs @ ys) = consoles xs @ consoles ys"
  by (induction xs rule: consoles.induct) simp_all

lemma emittedI: "trace s' = trace s @ evs \<Longrightarrow> emitted s s' = evs"
  by (simp add: emitted_def)

lemma emitted_self [simp]: "emitted s s = []"
  by (simp add: emitted_def)

lemma console_simps [simp]:
  "trace (console l args s) = trace s @ [Console l args]"
  "tenantOrmInstances (console l args s) = tenantOrmInstances s"
  "baseOrm (console l args s) = baseOrm s"
  by (simp_all add: console_def record_event_def)

lemma init_results:
  assumes "init w opts s = (x, s1)"
  shows "trace s1 = trace s @ [Init opts x]"
    and "tenantOrmInstances s1 = tenantOrmInstances s" and "baseOrm s1 = baseOrm s"
  using assms by (auto simp: init_def record_event_def Let_def)

lemma execute_results:
  assumes "execute w conn sql params s = (x, s1)"
  shows "trace s1 = trace s @ [Execute conn sql params x]"
    and "tenantOrmInstances s1 = tenantOrmInstances s" and "baseOrm s1 = baseOrm s"
  using assms by (auto simp: execute_def record_event_def Let_def)

lemma up_results:
  assumes "up w orm s = (x, s1)"
  shows "trace s1 = trace s @ [MigratorUp orm x]"
    and "tenantOrmInstances s1 = tenantOrmInstances s" and "baseOrm s1 = baseOrm s"
  using assms by (auto simp: up_def record_event_def Let_def)

lemma readFile_results:
  assumes "readFile w s = (x, s1)"
  shows "trace s1 = trace s @ [ReadFile x]"
    and "tenantOrmInstances s1 = tenantOrmInstances s" and "baseOrm s1 = baseOrm s"
  using assms by (auto simp: readFile_def record_event_def Let_def)

lemma close_results:
  assumes "close w orm s = (x, s1)"
  shows "trace s1 = trace s @ [Close orm x]"
    and "tenantOrmInstances s1 = tenantOrmInstances s" and "baseOrm s1 = baseOrm s"
  using assms by (auto simp: close_def record_event_def Let_def)

subsection \<open>The blocks of \<^verbatim>\<open>getTenantORM\<close>\<close>

lemma getBaseORM_shape:
  assumes "getBaseORM w s = (x, s1)"
  shows "\<exists>B. trace s1 = trace s @ B \<and> baseEvents w (baseOrm s) x B \<and>
           tenantOrmInstances s1 = tenantOrmInstances s \<and>
           (case x of Inl e \<Rightarrow> baseOrm s = None \<and> baseOrm s1 = None
                    | Inr b \<Rightarrow> baseOrm s1 = Some b)"
proof (cases "baseOrm s")
  case None
  obtain y s0 where i: "init w (baseOptions w) s = (y, s0)"
    by (cases "init w (baseOptions w) s")
  from assms None i have "x = y"
    by (auto simp: getBaseORM_def split: sum.splits)
  moreover from assms None i have "trace s1 = trace s0"
    "tenantOrmInstances s1 = tenantOrmInstances s0"
    "case x of Inl e \<Rightarrow> baseOrm s1 = baseOrm s0 | Inr b \<Rightarrow> baseOrm s1 = Some b"
    by (auto simp: getBaseORM_def split: sum.splits)
  ultimately show ?thesis
    using init_results [OF i] None
    by (intro exI [of _ "[Init (baseOptions w) x]"])
      (auto intro: baseEvents.opened split: sum.splits)
next
  case (Some b)
  with assms show ?thesis
    by (auto simp: getBaseORM_def intro: baseEvents.cached)
qed

lemma checkCreateDatabase_shape:
  "\<exists>C. trace (checkCreateDatabase w b t s) = trace s @ C \<and> checkCreateEvents b t C \<and>
       tenantOrmInstances (checkCreateDatabase w b t s) = tenantOrmInstances s \<and>
       baseOrm (checkCreateDatabase w b t s) = baseOrm s"
proof -
  obtain x s1 where c: "execute w b ''SELECT 1 FROM pg_database WHERE datname = $1''
      [''tenant_'' @ t] s = (x, s1)"
    by (cases "execute w b ''SELECT 1 FROM pg_database WHERE datname = $1'' [''tenant_'' @ t] s")
  note r1 = execute_results [OF c]
  show ?thesis
  proof (cases x)
    case (Inl e)
    with c r1 checkCreateEvents.check_failed [of b t e] show ?thesis
      by (auto simp: checkCreateDatabase_def)
  next
    case (Inr n)
    show ?thesis
    proof (cases "n = 0")
      case False
      with c r1 Inr checkCreateEvents.found [of n b t] show ?thesis
        by (auto simp: checkCreateDatabase_def)
    next
      case True
      obtain y s2 where d: "execute w b (''CREATE DATABASE tenant_'' @ t) [] s1 = (y, s2)"
        by (cases "execute w b (''CREATE DATABASE tenant_'' @ t) [] s1")
      note r2 = execute_results [OF d]
      from c d r1 r2 Inr True checkCreateEvents.create_failed [of b t]
        checkCreateEvents.created [of b t]
      show ?thesis
        by (cases y) (auto simp: checkCreateDatabase_def)
    qed
  qed
qed

lemma statementTrace_Nil [simp]: "statementTrace c p [] outs = []"
  by (simp add: statementTrace_def)

lemma statementTrace_Cons [simp]:
  "statementTrace c p (st # sts) (x # outs) =
     Execute c st [] x #
       (case x of Inl err \<Rightarrow> [Console ConsoleWarn [p @ message err]] | Inr _ \<Rightarrow> []) @
       statementTrace c p sts outs"
  by (simp add: statementTrace_def)

lemma executeStatements_shape:
  "\<exists>outs. length outs = length sts \<and>
      trace (executeStatements w c p sts s) = trace s @ statementTrace c p sts outs \<and>
      tenantOrmInstances (executeStatements w c p sts s) = tenantOrmInstances s \<and>
      baseOrm (executeStatements w c p sts s) = baseOrm s"
proof (induction sts arbitrary: s)
  case Nil
  show ?case by simp
next
  case (Cons st sts)
  obtain x s1 where e: "execute w c st [] s = (x, s1)"
    by (cases "execute w c st [] s")
  note r = execute_results [OF e]
  define s2 where
    "s2 = (case x of Inl err \<Rightarrow> console ConsoleWarn [p @ message err] s1 | Inr _ \<Rightarrow> s1)"
  have step: "executeStatements w c p (st # sts) s = executeStatements w c p sts s2"
    using e by (simp add: s2_def split: sum.splits)
  have t2: "trace s2 = trace s @ Execute c st [] x #
       (case x of Inl err \<Rightarrow> [Console ConsoleWarn [p @ message err]] | Inr _ \<Rightarrow> [])"
    and f2: "tenantOrmInstances s2 = tenantOrmInstances s" "baseOrm s2 = baseOrm s"
    using r by (auto simp: s2_def split: sum.splits)
  from Cons.IH [of s2] obtain outs where o: "length outs = length sts"
    "trace (executeStatements w c p sts s2) = trace s2 @ statementTrace c p sts outs"
    "tenantOrmInstances (executeStatements w c p sts s2) = tenantOrmInstances s2"
    "baseOrm (executeStatements w c p sts s2) = baseOrm s2"
    by blast
  show ?case
    unfolding step using o t2 f2
    by (intro exI [of _ "x # outs"]) simp
qed

lemma createSchemaManually_shape:
  "\<exists>E. trace (createSchemaManually w orm t s) = trace s @ E \<and> schemaEvents orm t E \<and>
       tenantOrmInstances (createSchemaManually w orm t s) = tenantOrmInstances s \<and>
       baseOrm (createSchemaManually w orm t s) = baseOrm s"
proof -
  define s0 where "s0 = console ConsoleLog [''Creating tenant schema manually...''] s"
  obtain x s1 where r: "readFile w s0 = (x, s1)"
    by (cases "readFile w s0")
  note r1 = readFile_results [OF r]
  show ?thesis
  proof (cases x)
    case (Inl e)
    with r r1 schemaEvents.unreadable [of orm t e] show ?thesis
      by (auto simp: createSchemaManually_def s0_def)
  next
    case (Inr schema)
    obtain outs where o: "length outs = length (statements schema)"
      "trace (executeStatements w orm ''Warning executing statement for tenant: ''
                (statements schema) s1) =
       trace s1 @ statementTrace orm ''Warning executing statement for tenant: ''
                (statements schema) outs"
      "tenantOrmInstances (executeStatements w orm ''Warning executing statement for tenant: ''
                (statements schema) s1) = tenantOrmInstances s1"
      "baseOrm (executeStatements w orm ''Warning executing statement for tenant: ''
                (statements schema) s1) = baseOrm s1"
      using executeStatements_shape [of "statements schema" w orm
          "''Warning executing statement for tenant: ''" s1]
      by blast
    from r r1 Inr o schemaEvents.executed [OF o(1), of orm t] show ?thesis
      by (auto simp: createSchemaManually_def s0_def)
  qed
qed

lemma runMigrations_shape:
  "\<exists>M. trace (runMigrations w orm t s) = trace s @ M \<and> migrationEvents orm t M \<and>
       tenantOrmInstances (runMigrations w orm t s) = tenantOrmInstances s \<and>
       baseOrm (runMigrations w orm t s) = baseOrm s"
proof -
  obtain x s1 where u: "up w orm s = (x, s1)"
    by (cases "up w orm s")
  note r1 = up_results [OF u]
  show ?thesis
  proof (cases x)
    case (Inr v)
    with u r1 migrationEvents.applied [of orm t] show ?thesis
      by (auto simp: runMigrations_def)
  next
    case (Inl e)
    define s2 where
      "s2 = console ConsoleLog [''Creating schema manually for tenant '' @ t @ ''...'']
               (console ConsoleLog
                  [''Migrations not applied for tenant '' @ t @ '': '' @ message e] s1)"
    have run: "runMigrations w orm t s = createSchemaManually w orm t s2"
      using u Inl by (simp add: runMigrations_def s2_def)
    obtain E where E: "trace (createSchemaManually w orm t s2) = trace s2 @ E"
      "schemaEvents orm t E"
      "tenantOrmInstances (createSchemaManually w orm t s2) = tenantOrmInstances s2"
      "baseOrm (createSchemaManually w orm t s2) = baseOrm s2"
      using createSchemaManually_shape [of w orm t s2] by blast
    from E r1 Inl migrationEvents.fallback [OF E(2), of e] show ?thesis
      unfolding run by (auto simp: s2_def)
  qed
qed

lemma map_of_update_same: "map_of (AList.update k v al) k = Some v"
  by (simp add: update_conv')

lemma getTenantORM_cached:
  "has s t \<Longrightarrow> getTenantORM w t s = (Inr (map_of (tenantOrmInstances s) t), s)"
  by (simp add: getTenantORM_def)

lemma getTenantORM_shape:
  assumes "\<not> has s t" and "getTenantORM w t s = (r, s')"
  shows "\<exists>T. trace s' = trace s @ T \<and> tenantEvents w t (baseOrm s) (baseOrm s') r T \<and>
           (case r of
              Inl e \<Rightarrow> tenantOrmInstances s' = tenantOrmInstances s
            | Inr v \<Rightarrow> (\<exists>orm. v = Some orm \<and>
                 tenantOrmInstances s' = AList.update t orm (tenantOrmInstances s)))"
proof -
  obtain x s1 where g: "getBaseORM w s = (x, s1)"
    by (cases "getBaseORM w s")
  from getBaseORM_shape [OF g] obtain B where B: "trace s1 = trace s @ B"
    "baseEvents w (baseOrm s) x B" "tenantOrmInstances s1 = tenantOrmInstances s"
    "case x of Inl e \<Rightarrow> baseOrm s = None \<and> baseOrm s1 = None | Inr b \<Rightarrow> baseOrm s1 = Some b"
    by blast
  show ?thesis
  proof (cases x)
    case (Inl e)
    with assms g have "r = Inl e" "s' = s1"
      by (auto simp: getTenantORM_def)
    moreover from B(2,4) Inl have "B = [Init (baseOptions w) (Inl e)]" "baseOrm s = None"
      "baseOrm s1 = None"
      by (auto elim: baseEvents.cases)
    ultimately show ?thesis
      using B tenantEvents.base_failed [of w t e] by auto
  next
    case (Inr b)
    define s2 where "s2 = checkCreateDatabase w b t s1"
    obtain C where C: "trace s2 = trace s1 @ C" "checkCreateEvents b t C"
      "tenantOrmInstances s2 = tenantOrmInstances s1" "baseOrm s2 = baseOrm s1"
      using checkCreateDatabase_shape [of w b t s1] unfolding s2_def by blast
    obtain y s3 where i: "init w (tenantOptions w t) s2 = (y, s3)"
      by (cases "init w (tenantOptions w t) s2")
    note r3 = init_results [OF i]
    show ?thesis
    proof (cases y)
      case (Inl e)
      with assms g i Inr have "r = Inl e" "s' = s3"
        by (auto simp: getTenantORM_def s2_def)
      then show ?thesis
        using B C r3 Inl Inr tenantEvents.connect_failed [OF _ C(2), of w "baseOrm s" B e]
        by auto
    next
      case orm: (Inr orm)
      define s4 where "s4 = runMigrations w orm t s3"
      obtain M where M: "trace s4 = trace s3 @ M" "migrationEvents orm t M"
        "tenantOrmInstances s4 = tenantOrmInstances s3" "baseOrm s4 = baseOrm s3"
        using runMigrations_shape [of w orm t s3] unfolding s4_def by blast
      from assms g i Inr orm have "r = Inr (Some orm)"
        "s' = s4\<lparr>tenantOrmInstances := AList.update t orm (tenantOrmInstances s4)\<rparr>"
        by (auto simp: getTenantORM_def s2_def s4_def Let_def map_of_update_same)
      then show ?thesis
        using B C r3 M Inr orm
          tenantEvents.provisioned [OF _ C(2) M(2), of w "baseOrm s" B]
        by auto
    qed
  qed
qed

subsection \<open>\<^verbatim>\<open>closeConnections\<close>\<close>

lemma closeEntries_sweep:
  "closeEntries w es s = (r, s') \<Longrightarrow>
   \<exists>outs. trace s' = trace s @ map2 Close (map snd es) outs \<and>
     length outs \<le> length es \<and>
     (\<forall>x\<in>set (butlast outs). x = Inr ()) \<and>
     (case r of Inr _ \<Rightarrow> length outs = length es \<and> (\<forall>x\<in>set outs. x = Inr ())
              | Inl e \<Rightarrow> outs \<noteq> [] \<and> last outs = Inl e) \<and>
     tenantOrmInstances s' = tenantOrmInstances s \<and> baseOrm s' = baseOrm s"
proof (induction es arbitrary: s)
  case Nil
  then show ?case by auto
next
  case (Cons p es)
  obtain k orm where p: "p = (k, orm)" by (cases p)
  obtain x s1 where c: "close w orm s = (x, s1)" by (cases "close w orm s")
  note r1 = close_results [OF c]
  show ?case
  proof (cases x)
    case (Inl e)
    with Cons.prems p c have "r = Inl e" "s' = s1" by auto
    with r1 Inl show ?thesis
      by (intro exI [of _ "[Inl e]"]) (simp add: p)
  next
    case (Inr u)
    with Cons.prems p c have "closeEntries w es s1 = (r, s')" by auto
    from Cons.IH [OF this] obtain outs where o:
      "trace s' = trace s1 @ map2 Close (map snd es) outs"
      "length outs \<le> length es"
      "\<forall>x\<in>set (butlast outs). x = Inr ()"
      "case r of Inr _ \<Rightarrow> length outs = length es \<and> (\<forall>x\<in>set outs. x = Inr ())
              | Inl e \<Rightarrow> outs \<noteq> [] \<and> last outs = Inl e"
      "tenantOrmInstances s' = tenantOrmInstances s1" "baseOrm s' = baseOrm s1"
      by blast
    show ?thesis
      using o r1 Inr
      by (intro exI [of _ "Inr () # outs"]) (auto simp: p split: sum.splits)
  qed
qed

lemma closeConnections_sweep:
  assumes "closeConnections w s = (r, s')"
  shows "\<exists>outs. trace s' = trace s @ map2 Close (handles s) outs \<and>
     length outs \<le> length (handles s) \<and>
     (\<forall>x\<in>set (butlast outs). x = Inr ()) \<and>
     (case r of Inr _ \<Rightarrow> length outs = length (handles s) \<and> (\<forall>x\<in>set outs. x = Inr ())
              | Inl e \<Rightarrow> outs \<noteq> [] \<and> last outs = Inl e) \<and>
     tenantOrmInstances s' = tenantOrmInstances s \<and> baseOrm s' = baseOrm s"
proof (cases "baseOrm s")
  case None
  with assms have run: "closeEntries w (tenantOrmInstances s) s = (r, s')"
    by (simp add: closeConnections_def)
  have h: "handles s = map snd (tenantOrmInstances s)"
    using None by (simp add: handles_def)
  from closeEntries_sweep [OF run] obtain outs where o:
    "trace s' = trace s @ map2 Close (map snd (tenantOrmInstances s)) outs"
    "length outs \<le> length (tenantOrmInstances s)"
    "\<forall>x\<in>set (butlast outs). x = Inr ()"
    "case r of Inr _ \<Rightarrow> length outs = length (tenantOrmInstances s) \<and> (\<forall>x\<in>set outs. x = Inr ())
            | Inl e \<Rightarrow> outs \<noteq> [] \<and> last outs = Inl e"
    "tenantOrmInstances s' = tenantOrmInstances s" "baseOrm s' = baseOrm s"
    by blast
  show ?thesis
  proof (intro exI [of _ outs] conjI)
    show "case r of Inr _ \<Rightarrow> length outs = length (handles s) \<and> (\<forall>x\<in>set outs. x = Inr ())
            | Inl e \<Rightarrow> outs \<noteq> [] \<and> last outs = Inl e"
      using o(4) by (cases r) (simp_all add: h)
  qed (use o in \<open>simp_all add: h\<close>)
next
  case (Some b)
  obtain x s1 where c: "close w b s = (x, s1)" by (cases "close w b s")
  note r1 = close_results [OF c]
  have h: "handles s = b # map snd (tenantOrmInstances s)"
    using Some by (simp add: handles_def)
  show ?thesis
  proof (cases x)
    case (Inl e)
    with assms Some c have "r = Inl e" "s' = s1"
      by (auto simp: closeConnections_def)
    with r1 Inl show ?thesis
      by (intro exI [of _ "[Inl e]"]) (simp add: h)
  next
    case (Inr u)
    with assms Some c have "closeEntries w (tenantOrmInstances s1) s1 = (r, s')"
      by (auto simp: closeConnections_def)
    from closeEntries_sweep [OF this] obtain outs where o:
      "trace s' = trace s1 @ map2 Close (map snd (tenantOrmInstances s1)) outs"
      "length outs \<le> length (tenantOrmInstances s1)"
      "\<forall>x\<in>set (butlast outs). x = Inr ()"
      "case r of Inr _ \<Rightarrow> length outs = length (tenantOrmInstances s1) \<and> (\<forall>x\<in>set outs. x = Inr ())
              | Inl e \<Rightarrow> outs \<noteq> [] \<and> last outs = Inl e"
      "tenantOrmInstances s' = tenantOrmInstances s1" "baseOrm s' = baseOrm s1"
      by blast
    show ?thesis
    proof (intro exI [of _ "Inr () # outs"] conjI)
      show "case r of Inr _ \<Rightarrow> length (Inr () # outs) = length (handles s) \<and>
                (\<forall>x\<in>set (Inr () # outs). x = Inr ())
            | Inl e \<Rightarrow> Inr () # outs \<noteq> [] \<and> last (Inr () # outs) = Inl e"
        using o(4) r1 by (cases r) (auto simp: h)
      show "\<forall>x\<in>set (butlast (Inr () # outs)). x = Inr ()"
        using o(3) by auto
    qed (use o r1 Inr in \<open>simp_all add: h\<close>)
  qed
qed

lemma closes_map2_Close: "closes (map2 Close hs outs) = zip hs outs"
  by (induction hs outs rule: list_induct2') simp_all

lemma map2_Close_zip: "map (\<lambda>(orm, x). Close orm x) (zip hs outs) = map2 Close hs outs"
  by simp

text \<open>
  Claim C5, as the code has it. \<^verbatim>\<open>closeConnections\<close> closes the base instance (when
  there is one) and then the cached instances of the tenants in the order of the map, and
  stops at the first \<^verbatim>\<open>close\<close> that fails: the events of the call are the closes
  of a prefix of \<^const>\<open>handles\<close>, every close but the last one succeeded, nothing is
  written to the console, and the map and the base instance stay as they were. When the call
  returns, every instance was closed; when it throws, the error is the one of the last
  close attempted.
\<close>

theorem closeConnections_stops_at_first_failure:
  assumes "closeConnections w s = (r, s')"
  shows "emitted s s' = map (\<lambda>(orm, x). Close orm x) (closes (emitted s s')) \<and>
         map fst (closes (emitted s s')) = take (length (closes (emitted s s'))) (handles s) \<and>
         (\<forall>c\<in>set (butlast (closes (emitted s s'))). snd c = Inr ()) \<and>
         (case r of
            Inr _ \<Rightarrow> map fst (closes (emitted s s')) = handles s \<and>
                     (\<forall>c\<in>set (closes (emitted s s')). snd c = Inr ())
          | Inl e \<Rightarrow> closes (emitted s s') \<noteq> [] \<and> snd (last (closes (emitted s s'))) = Inl e) \<and>
         tenantOrmInstances s' = tenantOrmInstances s \<and> baseOrm s' = baseOrm s"
proof -
  from closeConnections_sweep [OF assms] obtain outs where o:
    "trace s' = trace s @ map2 Close (handles s) outs"
    "length outs \<le> length (handles s)"
    "\<forall>x\<in>set (butlast outs). x = Inr ()"
    "case r of Inr _ \<Rightarrow> length outs = length (handles s) \<and> (\<forall>x\<in>set outs. x = Inr ())
             | Inl e \<Rightarrow> outs \<noteq> [] \<and> last outs = Inl e"
    "tenantOrmInstances s' = tenantOrmInstances s" "baseOrm s' = baseOrm s"
    by blast
  define cl where "cl = zip (handles s) outs"
  have em: "emitted s s' = map2 Close (handles s) outs"
    using o(1) by (rule emittedI)
  have cl: "closes (emitted s s') = cl"
    by (simp add: em closes_map2_Close cl_def)
  have len: "length cl = length outs"
    using o(2) by (simp add: cl_def)
  have sn: "map snd cl = outs"
    using o(2) by (simp add: cl_def map_snd_zip_take)
  have fs: "map fst cl = take (length cl) (handles s)"
    using o(2) by (simp add: cl_def map_fst_zip_take min_def)
  have bl: "\<forall>c\<in>set (butlast cl). snd c = Inr ()"
  proof
    fix c assume "c \<in> set (butlast cl)"
    then have "snd c \<in> set (map snd (butlast cl))" by simp
    then have "snd c \<in> set (butlast outs)" by (simp add: map_butlast sn)
    with o(3) show "snd c = Inr ()" by simp
  qed
  have res: "case r of
            Inr _ \<Rightarrow> map fst cl = handles s \<and> (\<forall>c\<in>set cl. snd c = Inr ())
          | Inl e \<Rightarrow> cl \<noteq> [] \<and> snd (last cl) = Inl e"
  proof (cases r)
    case (Inr u)
    with o(4) have l: "length outs = length (handles s)" and a: "\<forall>x\<in>set outs. x = Inr ()"
      by simp_all
    have "\<forall>c\<in>set cl. snd c = Inr ()"
    proof
      fix c assume "c \<in> set cl"
      then have "snd c \<in> set (map snd cl)" by simp
      with a sn show "snd c = Inr ()" by simp
    qed
    with fs len l Inr show ?thesis by simp
  next
    case (Inl e)
    with o(4) have ne: "outs \<noteq> []" and la: "last outs = Inl e" by simp_all
    from ne len have "cl \<noteq> []" by auto
    moreover from this have "snd (last cl) = last (map snd cl)" by (simp add: last_map)
    ultimately show ?thesis using Inl la sn by simp
  qed
  show ?thesis
    unfolding cl using em fs bl res o(5,6) by (simp add: cl_def)
qed

text \<open>
  Claim C5 as stated fails: with three instances open and the second close failing, the
  third instance is never closed, the error is thrown and nothing is logged.
\<close>

theorem closeConnections_sweep_counterexample:
  "handles twoTenants = [0, 1, 2] \<and>
   fst (closeConnections clusterStuck twoTenants) = Inl (JsError ''Error'' ''stuck'') \<and>
   trace (snd (closeConnections clusterStuck twoTenants)) =
     [Close 0 (Inr ()), Close 1 (Inl (JsError ''Error'' ''stuck''))]"
  by code_simp

text \<open>The theorem of claim C5 on that run.\<close>

theorem closeConnections_stops_at_first_failure_witness:
  "closeConnections clusterStuck twoTenants =
     (Inl (JsError ''Error'' ''stuck''),
      twoTenants\<lparr>trace := [Close 0 (Inr ()), Close 1 (Inl (JsError ''Error'' ''stuck''))]\<rparr>) \<and>
   map fst (closes (emitted twoTenants
      (twoTenants\<lparr>trace := [Close 0 (Inr ()), Close 1 (Inl (JsError ''Error'' ''stuck''))]\<rparr>))) =
     take 2 (handles twoTenants) \<and>
   snd (last (closes (emitted twoTenants
      (twoTenants\<lparr>trace := [Close 0 (Inr ()), Close 1 (Inl (JsError ''Error'' ''stuck''))]\<rparr>)))) =
     Inl (JsError ''Error'' ''stuck'')"
proof -
  have run: "closeConnections clusterStuck twoTenants =
     (Inl (JsError ''Error'' ''stuck''),
      twoTenants\<lparr>trace := [Close 0 (Inr ()), Close 1 (Inl (JsError ''Error'' ''stuck''))]\<rparr>)"
    by code_simp
  have len: "length (closes (emitted twoTenants
      (twoTenants\<lparr>trace := [Close 0 (Inr ()), Close 1 (Inl (JsError ''Error'' ''stuck''))]\<rparr>))) = 2"
    by code_simp
  from closeConnections_stops_at_first_failure [OF run] len run show ?thesis
    by simp
qed

subsection \<open>Runs of \<^verbatim>\<open>getTenantORM\<close>\<close>

lemma tenantOptions_neq_baseOptions: "tenantOptions w t \<noteq> baseOptions w"
proof
  assume "tenantOptions w t = baseOptions w"
  then have "migrations_tableName (tenantOptions w t) = migrations_tableName (baseOptions w)"
    by simp
  then show False
    by (simp add: tenantOptions_def baseOptions_def)
qed

lemma baseEvents_no_connect:
  "baseEvents w bo x B \<Longrightarrow> \<forall>e\<in>set B. \<not> isInit (tenantOptions w t) e"
  by (auto elim!: baseEvents.cases simp: tenantOptions_neq_baseOptions [symmetric])

lemma checkCreateEvents_no_connect:
  "checkCreateEvents b t C \<Longrightarrow> \<forall>e\<in>set C. \<not> isInit opts e"
  by (auto elim!: checkCreateEvents.cases)

lemma beforeConnect_prefix:
  "\<forall>e\<in>set P. \<not> isInit (tenantOptions w t) e \<Longrightarrow>
   beforeConnect w t (P @ Init (tenantOptions w t) x # R) = P"
  by (simp add: beforeConnect_def takeWhile_append2)

lemma beforeConnect_all:
  "\<forall>e\<in>set P. \<not> isInit (tenantOptions w t) e \<Longrightarrow> beforeConnect w t P = P"
  by (simp add: beforeConnect_def)

text \<open>
  A run for a tenant that is not cached either fails to open the base instance, or
  records the events of the base instance, of the check and of the creation, then the
  opening of the instance of the tenant, then (when it was opened) the migrations.
\<close>

lemma getTenantORM_run:
  assumes "\<not> has s t" and "getTenantORM w t s = (r, s')"
  shows "(\<exists>e. baseOrm s = None \<and> r = Inl e \<and> emitted s s' = [Init (baseOptions w) (Inl e)] \<and>
             tenantOrmInstances s' = tenantOrmInstances s) \<or>
         (\<exists>b B C x M. baseEvents w (baseOrm s) (Inr b) B \<and> checkCreateEvents b t C \<and>
             emitted s s' = B @ C @ Init (tenantOptions w t) x # M \<and>
             beforeConnect w t (emitted s s') = B @ C \<and> baseOrm s' = Some b \<and>
             (case x of
                Inl e \<Rightarrow> r = Inl e \<and> M = [] \<and> tenantOrmInstances s' = tenantOrmInstances s
              | Inr orm \<Rightarrow> r = Inr (Some orm) \<and> migrationEvents orm t M \<and>
                  tenantOrmInstances s' = AList.update t orm (tenantOrmInstances s)))"
proof -
  from getTenantORM_shape [OF assms] obtain T where T: "trace s' = trace s @ T"
    "tenantEvents w t (baseOrm s) (baseOrm s') r T"
    "case r of
       Inl e \<Rightarrow> tenantOrmInstances s' = tenantOrmInstances s
     | Inr v \<Rightarrow> (\<exists>orm. v = Some orm \<and>
          tenantOrmInstances s' = AList.update t orm (tenantOrmInstances s))"
    by blast
  have em: "emitted s s' = T" using T(1) by (rule emittedI)
  from T(2) show ?thesis
  proof cases
    case (base_failed e)
    with T(3) em show ?thesis by simp
  next
    case (connect_failed b B C e)
    have "\<forall>e\<in>set (B @ C). \<not> isInit (tenantOptions w t) e"
      using baseEvents_no_connect [OF connect_failed(4)]
        checkCreateEvents_no_connect [OF connect_failed(5)] by auto
    from beforeConnect_prefix [OF this, of "Inl e" "[]"]
    have "beforeConnect w t T = B @ C" using connect_failed(3) by simp
    with connect_failed T(3) em show ?thesis
      by (intro disjI2 exI [of _ b] exI [of _ B] exI [of _ C] exI [of _ "Inl e"]
          exI [of _ "[]"]) simp
  next
    case (provisioned b B C orm M)
    have "\<forall>e\<in>set (B @ C). \<not> isInit (tenantOptions w t) e"
      using baseEvents_no_connect [OF provisioned(4)]
        checkCreateEvents_no_connect [OF provisioned(5)] by auto
    from beforeConnect_prefix [OF this, of "Inr orm" M]
    have "beforeConnect w t T = B @ C" using provisioned(3) by simp
    with provisioned T(3) em show ?thesis
      by (intro disjI2 exI [of _ b] exI [of _ B] exI [of _ C] exI [of _ "Inr orm"]
          exI [of _ M]) simp
  qed
qed

lemma baseEvents_projections:
  assumes "baseEvents w bo x B"
  shows "migrations B = []" "executes B = []" "reads B = []" "consoles B = []"
    "inits B = [] \<or> inits B = [(baseOptions w, x)]"
  using assms by (auto elim!: baseEvents.cases)

lemma checkCreateEvents_projections:
  assumes "checkCreateEvents b t C"
  shows "migrations C = []" "inits C = []" "reads C = []"
  using assms by (auto elim!: checkCreateEvents.cases)

lemma statementTrace_no_others:
  "migrations (statementTrace c p sts outs) = [] \<and>
   inits (statementTrace c p sts outs) = [] \<and>
   reads (statementTrace c p sts outs) = []"
  by (induction sts outs rule: list_induct2')
    (simp_all add: statementTrace_def split: sum.splits)

lemmas statementTrace_projections =
  statementTrace_no_others [THEN conjunct1]
  statementTrace_no_others [THEN conjunct2, THEN conjunct1]
  statementTrace_no_others [THEN conjunct2, THEN conjunct2]

lemma schemaEvents_projections:
  assumes "schemaEvents orm t E"
  shows "migrations E = []" "inits E = []"
  using assms by (auto elim!: schemaEvents.cases simp: statementTrace_projections)

lemma migrationEvents_projections:
  assumes "migrationEvents orm t M"
  shows "inits M = []" "\<exists>x. migrations M = [(orm, x)]"
  using assms by (auto elim!: migrationEvents.cases simp: schemaEvents_projections)

lemma statementTrace_executes:
  "length outs = length sts \<Longrightarrow>
   map (\<lambda>(c, sql, params, x). (c, sql, params)) (executes (statementTrace conn p sts outs)) =
     map (\<lambda>statement. (conn, statement, [])) sts"
  by (induction outs sts rule: list_induct2) (simp_all add: statementTrace_def split: sum.splits)

lemma schemaEvents_explicit:
  assumes "schemaEvents orm t E"
  shows "(\<exists>e2. E =
            [Console ConsoleLog [''Creating tenant schema manually...''], ReadFile (Inl e2),
             Console ConsoleError [''Error creating schema for tenant '' @ t @ '':'', message e2]]) \<or>
         (\<exists>schema outs.
            length outs = length (filter (\<lambda>p. p \<noteq> []) (map trim (split CHR '';'' schema))) \<and>
            E = [Console ConsoleLog [''Creating tenant schema manually...''],
                 ReadFile (Inr schema)] @
                statementTrace orm ''Warning executing statement for tenant: ''
                  (filter (\<lambda>p. p \<noteq> []) (map trim (split CHR '';'' schema))) outs @
                [Console ConsoleLog [''Schema created successfully for tenant '' @ t]] \<and>
            map (\<lambda>(c, sql, params, x). (c, sql, params)) (executes E) =
              map (\<lambda>statement. (orm, statement, []))
                (filter (\<lambda>p. p \<noteq> []) (map trim (split CHR '';'' schema))))"
  using assms
proof cases
  case (unreadable e2)
  then show ?thesis
    by blast
next
  case (executed outs schema)
  have sts: "statements schema = filter (\<lambda>p. p \<noteq> []) (map trim (split CHR '';'' schema))"
    by (simp add: statements_def)
  have ex: "map (\<lambda>(c, sql, params, x). (c, sql, params)) (executes E) =
      map (\<lambda>statement. (orm, statement, [])) (statements schema)"
    unfolding executed(1) using executed(2)
    by (simp add: statementTrace_executes)
  show ?thesis
    apply (rule disjI2)
    apply (rule exI [of _ schema])
    apply (rule exI [of _ outs])
    using executed ex unfolding sts
    apply simp
    done
qed

text \<open>
  Claim C6. When the migrations of a tenant that is not cached fail, the call goes on with
  the bootstrap script: after the failure come the two console lines, the line that
  announces the manual schema and the read of the script. Either the script could not be
  read, which is written to the console; or every statement of the script (its text split
  at the semicolons, each piece trimmed, the empty pieces left out) is executed in order on
  the instance of the tenant with no parameters, whatever the outcomes of the statements
  before it, a warning following each failure. Whatever happens in that block, the call
  returns the instance whose migrations failed, and the instance is in the map under the
  tenant.
\<close>

theorem migration_failure_falls_back_and_returns:
  assumes "\<not> has s t" and "getTenantORM w t s = (r, s')"
    and "(orm, Inl e) \<in> set (migrations (emitted s s'))"
  shows "r = Inr (Some orm) \<and> map_of (tenantOrmInstances s') t = Some orm \<and>
         (\<exists>pre E. emitted s s' =
            pre @ MigratorUp orm (Inl e) #
              Console ConsoleLog
                [''Migrations not applied for tenant '' @ t @ '': '' @ message e] #
              Console ConsoleLog [''Creating schema manually for tenant '' @ t @ ''...''] # E \<and>
            migrations pre = [] \<and> reads pre = [] \<and>
            ((\<exists>e2. E =
                [Console ConsoleLog [''Creating tenant schema manually...''], ReadFile (Inl e2),
                 Console ConsoleError
                   [''Error creating schema for tenant '' @ t @ '':'', message e2]]) \<or>
             (\<exists>schema outs.
                length outs =
                  length (filter (\<lambda>p. p \<noteq> []) (map trim (split CHR '';'' schema))) \<and>
                E = [Console ConsoleLog [''Creating tenant schema manually...''],
                     ReadFile (Inr schema)] @
                    statementTrace orm ''Warning executing statement for tenant: ''
                      (filter (\<lambda>p. p \<noteq> []) (map trim (split CHR '';'' schema))) outs @
                    [Console ConsoleLog [''Schema created successfully for tenant '' @ t]] \<and>
                map (\<lambda>(c, sql, params, x). (c, sql, params)) (executes E) =
                  map (\<lambda>statement. (orm, statement, []))
                    (filter (\<lambda>p. p \<noteq> []) (map trim (split CHR '';'' schema))))))"
proof -
  from getTenantORM_run [OF assms(1,2)] consider
    (base) e' where "emitted s s' = [Init (baseOptions w) (Inl e')]"
  | (run) b B C x M where "baseEvents w (baseOrm s) (Inr b) B" "checkCreateEvents b t C"
      "emitted s s' = B @ C @ Init (tenantOptions w t) x # M"
      "case x of
         Inl e \<Rightarrow> r = Inl e \<and> M = [] \<and> tenantOrmInstances s' = tenantOrmInstances s
       | Inr orm \<Rightarrow> r = Inr (Some orm) \<and> migrationEvents orm t M \<and>
           tenantOrmInstances s' = AList.update t orm (tenantOrmInstances s)"
    by blast
  then show ?thesis
  proof cases
    case base
    with assms(3) show ?thesis by simp
  next
    case run
    have mig: "migrations (emitted s s') = migrations M"
      using run(1,2,3) by (simp add: baseEvents_projections checkCreateEvents_projections)
    show ?thesis
    proof (cases x)
      case (Inl e')
      with run(4) mig assms(3) show ?thesis by simp
    next
      case (Inr orm')
      with run(4) have r: "r = Inr (Some orm')" and M: "migrationEvents orm' t M"
        and c: "tenantOrmInstances s' = AList.update t orm' (tenantOrmInstances s)"
        by simp_all
      from M show ?thesis
      proof cases
        case applied
        with mig assms(3) show ?thesis by simp
      next
        case (fallback E e')
        with mig assms(3) have same: "orm' = orm" "e' = e"
          by (simp_all add: schemaEvents_projections)
        have pre: "migrations (B @ C @ [Init (tenantOptions w t) x]) = []"
          "reads (B @ C @ [Init (tenantOptions w t) x]) = []"
          using run(1,2) by (simp_all add: baseEvents_projections checkCreateEvents_projections)
        have em: "emitted s s' =
            (B @ C @ [Init (tenantOptions w t) x]) @ MigratorUp orm (Inl e) #
              Console ConsoleLog
                [''Migrations not applied for tenant '' @ t @ '': '' @ message e] #
              Console ConsoleLog [''Creating schema manually for tenant '' @ t @ ''...''] # E"
          using run(3) fallback(1) same by simp
        from fallback(2) same have "schemaEvents orm t E"
          by simp
        note ex = schemaEvents_explicit [OF this]
        have ret: "r = Inr (Some orm)" "map_of (tenantOrmInstances s') t = Some orm"
          using r c same by (simp_all add: map_of_update_same)
        from em pre ex have "\<exists>pre E. emitted s s' =
            pre @ MigratorUp orm (Inl e) #
              Console ConsoleLog
                [''Migrations not applied for tenant '' @ t @ '': '' @ message e] #
              Console ConsoleLog [''Creating schema manually for tenant '' @ t @ ''...''] # E \<and>
            migrations pre = [] \<and> reads pre = [] \<and>
            ((\<exists>e2. E =
                [Console ConsoleLog [''Creating tenant schema manually...''], ReadFile (Inl e2),
                 Console ConsoleError
                   [''Error creating schema for tenant '' @ t @ '':'', message e2]]) \<or>
             (\<exists>schema outs.
                length outs =
                  length (filter (\<lambda>p. p \<noteq> []) (map trim (split CHR '';'' schema))) \<and>
                E = [Console ConsoleLog [''Creating tenant schema manually...''],
                     ReadFile (Inr schema)] @
                    statementTrace orm ''Warning executing statement for tenant: ''
                      (filter (\<lambda>p. p \<noteq> []) (map trim (split CHR '';'' schema))) outs @
                    [Console ConsoleLog [''Schema created successfully for tenant '' @ t]] \<and>
                map (\<lambda>(c, sql, params, x). (c, sql, params)) (executes E) =
                  map (\<lambda>statement. (orm, statement, []))
                    (filter (\<lambda>p. p \<noteq> []) (map trim (split CHR '';'' schema)))))"
          by (intro exI [of _ "B @ C @ [Init (tenantOptions w t) x]"] exI [of _ E] conjI)
        with ret show ?thesis
          by (intro conjI)
      qed
    qed
  qed
qed

text \<open>
  On the server without migrations the run for \<^verbatim>\<open>acme\<close> is such a run: the
  script is read, and its three statements are executed on the instance of the tenant, the
  second one failing.
\<close>

theorem migration_failure_falls_back_and_returns_witness:
  "\<not> has started ''acme'' \<and>
   (4, Inl (JsError ''MigrationError'' ''no migrations'')) \<in>
     set (migrations (emitted started
       (snd (getTenantORM clusterWithoutMigrations ''acme'' started)))) \<and>
   fst (getTenantORM clusterWithoutMigrations ''acme'' started) = Inr (Some 4) \<and>
   map_of (tenantOrmInstances (snd (getTenantORM clusterWithoutMigrations ''acme'' started)))
     ''acme'' = Some 4 \<and>
   (\<exists>pre E. emitted started (snd (getTenantORM clusterWithoutMigrations ''acme'' started)) =
      pre @ MigratorUp 4 (Inl (JsError ''MigrationError'' ''no migrations'')) #
        Console ConsoleLog [''Migrations not applied for tenant acme: no migrations''] #
        Console ConsoleLog [''Creating schema manually for tenant acme...''] # E \<and>
      map (\<lambda>(c, sql, params, x). (c, sql, params)) (executes E) =
        [(4, ''CREATE TABLE crop (id UUID)'', []), (4, ''CREATE TABLE crop (id UUID)'', []),
         (4, ''CREATE TABLE harvest (id UUID)'', [])]) \<and>
   executes (emitted started (snd (getTenantORM clusterWithoutMigrations ''acme'' started))) =
     [(0, ''SELECT 1 FROM pg_database WHERE datname = $1'', [''tenant_acme''], Inr 0),
      (0, ''CREATE DATABASE tenant_acme'', [], Inr 0),
      (4, ''CREATE TABLE crop (id UUID)'', [], Inr 0),
      (4, ''CREATE TABLE crop (id UUID)'', [],
       Inl (JsError ''error'' ''relation already exists'')),
      (4, ''CREATE TABLE harvest (id UUID)'', [], Inr 0)]"
proof -
  define schema0 where "schema0 =
    ''CREATE TABLE crop (id UUID); CREATE TABLE crop (id UUID); CREATE TABLE harvest (id UUID); ''"
  have h: "\<not> has started ''acme''"
    by code_simp
  have m: "(4, Inl (JsError ''MigrationError'' ''no migrations'')) \<in>
     set (migrations (emitted started
       (snd (getTenantORM clusterWithoutMigrations ''acme'' started))))"
    by code_simp
  have rd: "reads (emitted started
       (snd (getTenantORM clusterWithoutMigrations ''acme'' started))) = [Inr schema0]"
    unfolding schema0_def by code_simp
  have st: "filter (\<lambda>p. p \<noteq> []) (map trim (split CHR '';'' schema0)) =
      [''CREATE TABLE crop (id UUID)'', ''CREATE TABLE crop (id UUID)'',
       ''CREATE TABLE harvest (id UUID)'']"
    unfolding schema0_def by code_simp
  have ex: "executes (emitted started
       (snd (getTenantORM clusterWithoutMigrations ''acme'' started))) =
     [(0, ''SELECT 1 FROM pg_database WHERE datname = $1'', [''tenant_acme''], Inr 0),
      (0, ''CREATE DATABASE tenant_acme'', [], Inr 0),
      (4, ''CREATE TABLE crop (id UUID)'', [], Inr 0),
      (4, ''CREATE TABLE crop (id UUID)'', [],
       Inl (JsError ''error'' ''relation already exists'')),
      (4, ''CREATE TABLE harvest (id UUID)'', [], Inr 0)]"
    by code_simp
  note inst = migration_failure_falls_back_and_returns [OF h surjective_pairing m]
  from inst have ret: "fst (getTenantORM clusterWithoutMigrations ''acme'' started) = Inr (Some 4)"
    and cached: "map_of (tenantOrmInstances
        (snd (getTenantORM clusterWithoutMigrations ''acme'' started))) ''acme'' = Some 4"
    by blast+
  from inst obtain pre E where
    em: "emitted started (snd (getTenantORM clusterWithoutMigrations ''acme'' started)) =
      pre @ MigratorUp 4 (Inl (JsError ''MigrationError'' ''no migrations'')) #
        Console ConsoleLog
          [''Migrations not applied for tenant '' @ ''acme'' @ '': '' @
           message (JsError ''MigrationError'' ''no migrations'')] #
        Console ConsoleLog [''Creating schema manually for tenant '' @ ''acme'' @ ''...''] # E"
    and pre: "reads pre = []"
    and E: "(\<exists>e2. E =
                [Console ConsoleLog [''Creating tenant schema manually...''], ReadFile (Inl e2),
                 Console ConsoleError
                   [''Error creating schema for tenant '' @ ''acme'' @ '':'', message e2]]) \<or>
             (\<exists>schema outs.
                length outs =
                  length (filter (\<lambda>p. p \<noteq> []) (map trim (split CHR '';'' schema))) \<and>
                E = [Console ConsoleLog [''Creating tenant schema manually...''],
                     ReadFile (Inr schema)] @
                    statementTrace 4 ''Warning executing statement for tenant: ''
                      (filter (\<lambda>p. p \<noteq> []) (map trim (split CHR '';'' schema))) outs @
                    [Console ConsoleLog [''Schema created successfully for tenant '' @ ''acme'']] \<and>
                map (\<lambda>(c, sql, params, x). (c, sql, params)) (executes E) =
                  map (\<lambda>statement. (4, statement, []))
                    (filter (\<lambda>p. p \<noteq> []) (map trim (split CHR '';'' schema))))"
    by blast
  have rE: "reads E = [Inr schema0]"
    using rd pre unfolding em by simp
  from E have run: "map (\<lambda>(c, sql, params, x). (c, sql, params)) (executes E) =
        [(4, ''CREATE TABLE crop (id UUID)'', []), (4, ''CREATE TABLE crop (id UUID)'', []),
         (4, ''CREATE TABLE harvest (id UUID)'', [])]"
  proof (elim disjE exE conjE)
    fix e2
    assume "E = [Console ConsoleLog [''Creating tenant schema manually...''], ReadFile (Inl e2),
                 Console ConsoleError
                   [''Error creating schema for tenant '' @ ''acme'' @ '':'', message e2]]"
    with rE show ?thesis
      by simp
  next
    fix schema outs
    assume shape: "E = [Console ConsoleLog [''Creating tenant schema manually...''],
                     ReadFile (Inr schema)] @
                    statementTrace 4 ''Warning executing statement for tenant: ''
                      (filter (\<lambda>p. p \<noteq> []) (map trim (split CHR '';'' schema))) outs @
                    [Console ConsoleLog [''Schema created successfully for tenant '' @ ''acme'']]"
      and run: "map (\<lambda>(c, sql, params, x). (c, sql, params)) (executes E) =
                  map (\<lambda>statement. (4, statement, []))
                    (filter (\<lambda>p. p \<noteq> []) (map trim (split CHR '';'' schema)))"
    from rE have "schema = schema0"
      unfolding shape by (simp add: statementTrace_projections)
    with run show ?thesis
      by (simp only: st list.map)
  qed
  have fallback: "\<exists>pre E.
      emitted started (snd (getTenantORM clusterWithoutMigrations ''acme'' started)) =
      pre @ MigratorUp 4 (Inl (JsError ''MigrationError'' ''no migrations'')) #
        Console ConsoleLog [''Migrations not applied for tenant acme: no migrations''] #
        Console ConsoleLog [''Creating schema manually for tenant acme...''] # E \<and>
      map (\<lambda>(c, sql, params, x). (c, sql, params)) (executes E) =
        [(4, ''CREATE TABLE crop (id UUID)'', []), (4, ''CREATE TABLE crop (id UUID)'', []),
         (4, ''CREATE TABLE harvest (id UUID)'', [])]"
  proof (rule exI [of _ pre], rule exI [of _ E], intro conjI)
    show "emitted started (snd (getTenantORM clusterWithoutMigrations ''acme'' started)) =
      pre @ MigratorUp 4 (Inl (JsError ''MigrationError'' ''no migrations'')) #
        Console ConsoleLog [''Migrations not applied for tenant acme: no migrations''] #
        Console ConsoleLog [''Creating schema manually for tenant acme...''] # E"
      unfolding em by simp
  next
    show "map (\<lambda>(c, sql, params, x). (c, sql, params)) (executes E) =
        [(4, ''CREATE TABLE crop (id UUID)'', []), (4, ''CREATE TABLE crop (id UUID)'', []),
         (4, ''CREATE TABLE harvest (id UUID)'', [])]"
      by (rule run)
  qed
  show ?thesis
  proof (intro conjI)
    show "\<not> has started ''acme''" by (fact h)
  next
    show "(4, Inl (JsError ''MigrationError'' ''no migrations'')) \<in>
     set (migrations (emitted started
       (snd (getTenantORM clusterWithoutMigrations ''acme'' started))))" by (fact m)
  qed (fact ret, fact cached, fact fallback, fact ex)
qed

lemma first_split: "first (split sep s) = Some (takeWhile (\<lambda>c. c \<noteq> sep) s)"
  by (subst split.simps) (simp add: first_def split: list.splits)

text \<open>
  Claim C7. When the instance of a tenant that is not cached cannot be opened, the error
  is thrown to the caller and the map is as it was, so the tenant is still not cached; the
  middleware answers such a request with status 500; and the next call for the tenant
  starts again with the existence check.
\<close>

theorem connection_failure_is_raised_and_not_cached:
  assumes "\<not> has s t" and "getTenantORM w t s = (r, s')"
    and "(tenantOptions w t, Inl e) \<in> set (inits (emitted s s'))"
  shows "r = Inl e \<and> tenantOrmInstances s' = tenantOrmInstances s \<and> \<not> has s' t \<and>
         (resolveTenantId req = Inr (Some t) \<and> t \<noteq> [] \<longrightarrow>
            fst (tenantMiddleware w req s) = Response 500 ''Error initializing tenant context'' \<and>
            tenantOrmInstances (snd (tenantMiddleware w req s)) = tenantOrmInstances s) \<and>
         (\<exists>b x rest. emitted s' (snd (getTenantORM w t s')) =
            Execute b ''SELECT 1 FROM pg_database WHERE datname = $1'' [''tenant_'' @ t] x # rest)"
proof -
  from getTenantORM_run [OF assms(1,2)] consider
    (base) e' where "emitted s s' = [Init (baseOptions w) (Inl e')]"
  | (run) b B C x M where "baseEvents w (baseOrm s) (Inr b) B" "checkCreateEvents b t C"
      "emitted s s' = B @ C @ Init (tenantOptions w t) x # M" "baseOrm s' = Some b"
      "case x of
         Inl e \<Rightarrow> r = Inl e \<and> M = [] \<and> tenantOrmInstances s' = tenantOrmInstances s
       | Inr orm \<Rightarrow> r = Inr (Some orm) \<and> migrationEvents orm t M \<and>
           tenantOrmInstances s' = AList.update t orm (tenantOrmInstances s)"
    by blast
  then have main: "r = Inl e \<and> tenantOrmInstances s' = tenantOrmInstances s \<and> baseOrm s' \<noteq> None"
  proof cases
    case base
    with assms(3) show ?thesis
      by (simp add: tenantOptions_neq_baseOptions)
  next
    case run
    have i: "inits (emitted s s') = inits B @ (tenantOptions w t, x) # inits M"
      using run(2,3) by (simp add: checkCreateEvents_projections)
    have nb: "(tenantOptions w t, Inl e) \<notin> set (inits B)"
      using baseEvents_projections(5) [OF run(1)]
      by (auto simp: tenantOptions_neq_baseOptions)
    show ?thesis
    proof (cases x)
      case (Inl e')
      with run(5) i nb assms(3) run(4) show ?thesis by auto
    next
      case (Inr orm)
      with run(5) have "migrationEvents orm t M" by simp
      then have "inits M = []"
        by (rule migrationEvents_projections)
      with i nb assms(3) Inr show ?thesis by auto
    qed
  qed
  then have r: "r = Inl e" and c: "tenantOrmInstances s' = tenantOrmInstances s"
    and b: "baseOrm s' \<noteq> None"
    by simp_all
  have nh: "\<not> has s' t"
    using assms(1) c by (simp add: has_def)
  have mw: "fst (tenantMiddleware w req s) = Response 500 ''Error initializing tenant context'' \<and>
            tenantOrmInstances (snd (tenantMiddleware w req s)) = tenantOrmInstances s"
    if "resolveTenantId req = Inr (Some t)" "t \<noteq> []"
    using that assms(2) r c by (simp add: tenantMiddleware_def)
  obtain r2 s2 where next_call: "getTenantORM w t s' = (r2, s2)"
    by (cases "getTenantORM w t s'")
  from getTenantORM_run [OF nh next_call] b obtain b2 B2 C2 x2 M2 where
    n: "baseEvents w (baseOrm s') (Inr b2) B2" "checkCreateEvents b2 t C2"
      "emitted s' s2 = B2 @ C2 @ Init (tenantOptions w t) x2 # M2"
    by auto
  from n(1) b have "B2 = []"
    by (auto elim: baseEvents.cases)
  with n(2,3) have "\<exists>b x rest. emitted s' s2 =
      Execute b ''SELECT 1 FROM pg_database WHERE datname = $1'' [''tenant_'' @ t] x # rest"
    by (auto elim!: checkCreateEvents.cases)
  with r c nh mw next_call show ?thesis by simp
qed

text \<open>
  The tenant \<^verbatim>\<open>green-valley\<close> is such a tenant: its database cannot be created
  (the hyphen is a syntax error), so its instance cannot be opened.
\<close>

theorem connection_failure_is_raised_and_not_cached_witness:
  "\<not> has started ''green-valley'' \<and>
   (tenantOptions cluster ''green-valley'',
    Inl (JsError ''error'' ''database tenant_green-valley does not exist'')) \<in>
     set (inits (emitted started (snd (getTenantORM cluster ''green-valley'' started)))) \<and>
   resolveTenantId \<lparr>x_tenant_id = Some ''green-valley'', hostname = Some ''localhost''\<rparr> =
     Inr (Some ''green-valley'') \<and>
   fst (getTenantORM cluster ''green-valley'' started) =
     Inl (JsError ''error'' ''database tenant_green-valley does not exist'') \<and>
   tenantOrmInstances (snd (getTenantORM cluster ''green-valley'' started)) = [] \<and>
   fst (tenantMiddleware cluster
          \<lparr>x_tenant_id = Some ''green-valley'', hostname = Some ''localhost''\<rparr> started) =
     Response 500 ''Error initializing tenant context''"
proof -
  have h: "\<not> has started ''green-valley''"
    by code_simp
  have i: "(tenantOptions cluster ''green-valley'',
    Inl (JsError ''error'' ''database tenant_green-valley does not exist'')) \<in>
     set (inits (emitted started (snd (getTenantORM cluster ''green-valley'' started))))"
    by code_simp
  have q: "resolveTenantId \<lparr>x_tenant_id = Some ''green-valley'', hostname = Some ''localhost''\<rparr> =
     Inr (Some ''green-valley'')"
    by (simp add: resolveTenantId_def)
  have s0: "tenantOrmInstances started = []"
    by (simp add: started_def)
  from connection_failure_is_raised_and_not_cached [OF h surjective_pairing i,
      of "\<lparr>x_tenant_id = Some ''green-valley'', hostname = Some ''localhost''\<rparr>"] h i q s0
  show ?thesis by simp
qed

text \<open>
  Claim C8. When the existence check or the creation of the database fails for a tenant
  that is not cached, the message of the error is written to the console, nothing is
  thrown at that point, and the next event is the opening of the instance of the tenant;
  the call throws only when that opening fails, and otherwise returns the instance opened.
\<close>

theorem check_or_create_failure_is_swallowed:
  assumes "\<not> has s t" and "getTenantORM w t s = (r, s')"
    and "(b, sql, ps, Inl e) \<in> set (executes (beforeConnect w t (emitted s s')))"
  shows "(ConsoleError, [''Error checking/creating tenant database: '' @ message e]) \<in>
           set (consoles (beforeConnect w t (emitted s s'))) \<and>
         (\<exists>x. inits (drop (length (beforeConnect w t (emitted s s'))) (emitted s s')) =
                 [(tenantOptions w t, x)] \<and>
              (case x of Inl e' \<Rightarrow> r = Inl e' | Inr orm \<Rightarrow> r = Inr (Some orm)))"
proof -
  from getTenantORM_run [OF assms(1,2)] consider
    (base) e' where "emitted s s' = [Init (baseOptions w) (Inl e')]"
  | (run) b' B C x M where "baseEvents w (baseOrm s) (Inr b') B" "checkCreateEvents b' t C"
      "emitted s s' = B @ C @ Init (tenantOptions w t) x # M"
      "beforeConnect w t (emitted s s') = B @ C"
      "case x of
         Inl e \<Rightarrow> r = Inl e \<and> M = [] \<and> tenantOrmInstances s' = tenantOrmInstances s
       | Inr orm \<Rightarrow> r = Inr (Some orm) \<and> migrationEvents orm t M \<and>
           tenantOrmInstances s' = AList.update t orm (tenantOrmInstances s)"
    by blast
  then show ?thesis
  proof cases
    case base
    have "beforeConnect w t (emitted s s') = emitted s s'"
      unfolding base by (rule beforeConnect_all) (simp add: tenantOptions_neq_baseOptions [symmetric])
    with assms(3) base show ?thesis by simp
  next
    case run
    from assms(3) run(1,4) have inC: "(b, sql, ps, Inl e) \<in> set (executes C)"
      by (simp add: baseEvents_projections)
    from run(2) inC
    have "(ConsoleError, [''Error checking/creating tenant database: '' @ message e]) \<in>
            set (consoles C)"
      by cases auto
    then have logged:
      "(ConsoleError, [''Error checking/creating tenant database: '' @ message e]) \<in>
         set (consoles (beforeConnect w t (emitted s s')))"
      using run(4) by simp
    have rest: "drop (length (beforeConnect w t (emitted s s'))) (emitted s s') =
        Init (tenantOptions w t) x # M"
      using run(3,4) by simp
    have "inits M = []"
    proof (cases x)
      case (Inl e')
      with run(5) show ?thesis by simp
    next
      case (Inr orm)
      with run(5) have "migrationEvents orm t M" by simp
      then show ?thesis by (rule migrationEvents_projections)
    qed
    moreover have "case x of Inl e' \<Rightarrow> r = Inl e' | Inr orm \<Rightarrow> r = Inr (Some orm)"
      using run(5) by (cases x) simp_all
    ultimately show ?thesis
      using logged rest by (intro conjI exI [of _ x]) simp_all
  qed
qed

text \<open>The run for \<^verbatim>\<open>green-valley\<close> again: the creation fails and is logged.\<close>

theorem check_or_create_failure_is_swallowed_witness:
  "\<not> has started ''green-valley'' \<and>
   (0, ''CREATE DATABASE tenant_green-valley'', [], Inl (JsError ''error'' ''syntax error'')) \<in>
     set (executes (beforeConnect cluster ''green-valley''
       (emitted started (snd (getTenantORM cluster ''green-valley'' started))))) \<and>
   (ConsoleError, [''Error checking/creating tenant database: syntax error'']) \<in>
     set (consoles (beforeConnect cluster ''green-valley''
       (emitted started (snd (getTenantORM cluster ''green-valley'' started)))))"
proof -
  have h: "\<not> has started ''green-valley''"
    by code_simp
  have x: "(0, ''CREATE DATABASE tenant_green-valley'', [],
      Inl (JsError ''error'' ''syntax error'')) \<in>
     set (executes (beforeConnect cluster ''green-valley''
       (emitted started (snd (getTenantORM cluster ''green-valley'' started)))))"
    by code_simp
  from check_or_create_failure_is_swallowed [OF h surjective_pairing x] h x
  show ?thesis by simp
qed

text \<open>
  Claim C10. For a tenant that is not cached, the statements sent before the instance of
  the tenant is opened are the existence check, with the name of the database as its one
  parameter, and, when the check returned no row, the command made of the text
  \<^verbatim>\<open>CREATE DATABASE tenant_\<close> followed by the identifier as it was given, with no
  parameter. An identifier with a space or a semicolon in it is written into the command
  as it is, and the name in the command is then not an identifier of PostgreSQL.
\<close>

theorem create_database_command_is_concatenation:
  assumes "\<not> has s t" and "getTenantORM w t s = (r, s')"
  shows "map (\<lambda>(conn, sql, params, x). (sql, params))
             (executes (beforeConnect w t (emitted s s'))) =
           take (length (executes (beforeConnect w t (emitted s s'))))
             [(''SELECT 1 FROM pg_database WHERE datname = $1'', [''tenant_'' @ t]),
              (''CREATE DATABASE tenant_'' @ t, [])] \<and>
         ((\<exists>conn sql params. (conn, sql, params, Inr 0) \<in>
              set (take 1 (executes (beforeConnect w t (emitted s s'))))) \<longrightarrow>
            length (executes (beforeConnect w t (emitted s s'))) = 2) \<and>
         set t \<subseteq> set (''CREATE DATABASE tenant_'' @ t) \<and>
         (CHR '' '' \<in> set t \<or> CHR '';'' \<in> set t \<longrightarrow> \<not> plainIdentifier (''tenant_'' @ t))"
proof -
  have ident: "\<not> plainIdentifier (''tenant_'' @ t)" if "CHR '' '' \<in> set t \<or> CHR '';'' \<in> set t"
  proof -
    from that obtain c where c: "c \<in> set t" "\<not> identCont c"
      by (auto simp: identCont_def identStart_def)
    then have "\<not> list_all identCont t"
      by (auto simp: list_all_iff)
    then show ?thesis
      by (simp add: plainIdentifier_def)
  qed
  from getTenantORM_run [OF assms(1,2)] consider
    (base) e' where "emitted s s' = [Init (baseOptions w) (Inl e')]"
  | (run) b' B C where "baseEvents w (baseOrm s) (Inr b') B" "checkCreateEvents b' t C"
      "beforeConnect w t (emitted s s') = B @ C"
    by blast
  then have "map (\<lambda>(conn, sql, params, x). (sql, params))
             (executes (beforeConnect w t (emitted s s'))) =
           take (length (executes (beforeConnect w t (emitted s s'))))
             [(''SELECT 1 FROM pg_database WHERE datname = $1'', [''tenant_'' @ t]),
              (''CREATE DATABASE tenant_'' @ t, [])] \<and>
         ((\<exists>conn sql params. (conn, sql, params, Inr 0) \<in>
              set (take 1 (executes (beforeConnect w t (emitted s s'))))) \<longrightarrow>
            length (executes (beforeConnect w t (emitted s s'))) = 2)"
  proof cases
    case base
    have "beforeConnect w t (emitted s s') = emitted s s'"
      unfolding base by (rule beforeConnect_all) (simp add: tenantOptions_neq_baseOptions [symmetric])
    with base show ?thesis by simp
  next
    case run
    have "executes (beforeConnect w t (emitted s s')) = executes C"
      using run(1,3) by (simp add: baseEvents_projections)
    with run(2) show ?thesis
      by cases simp_all
  qed
  with ident show ?thesis by auto
qed

text \<open>A tenant whose identifier has spaces and a semicolon in it.\<close>

theorem create_database_command_is_concatenation_witness:
  "\<not> has started ''a; DROP DATABASE b'' \<and>
   (0, ''SELECT 1 FROM pg_database WHERE datname = $1'', [''tenant_a; DROP DATABASE b''], Inr 0) \<in>
     set (take 1 (executes (beforeConnect cluster ''a; DROP DATABASE b''
        (emitted started (snd (getTenantORM cluster ''a; DROP DATABASE b'' started)))))) \<and>
   CHR '' '' \<in> set ''a; DROP DATABASE b'' \<and>
   map (\<lambda>(conn, sql, params, x). (sql, params))
     (executes (beforeConnect cluster ''a; DROP DATABASE b''
        (emitted started (snd (getTenantORM cluster ''a; DROP DATABASE b'' started))))) =
     [(''SELECT 1 FROM pg_database WHERE datname = $1'', [''tenant_a; DROP DATABASE b'']),
      (''CREATE DATABASE tenant_a; DROP DATABASE b'', [])] \<and>
   \<not> plainIdentifier ''tenant_a; DROP DATABASE b''"
proof -
  have h: "\<not> has started ''a; DROP DATABASE b''"
    by code_simp
  have z: "(0, ''SELECT 1 FROM pg_database WHERE datname = $1'',
      [''tenant_a; DROP DATABASE b''], Inr 0) \<in>
     set (take 1 (executes (beforeConnect cluster ''a; DROP DATABASE b''
        (emitted started (snd (getTenantORM cluster ''a; DROP DATABASE b'' started))))))"
    by code_simp
  have c: "CHR '' '' \<in> set ''a; DROP DATABASE b''"
    by simp
  from create_database_command_is_concatenation [OF h surjective_pairing] z
  have n: "length (executes (beforeConnect cluster ''a; DROP DATABASE b''
        (emitted started (snd (getTenantORM cluster ''a; DROP DATABASE b'' started))))) = 2"
    by blast
  from create_database_command_is_concatenation [OF h surjective_pairing] h z n c
  show ?thesis by simp
qed

subsection \<open>The statements of the schema file\<close>

lemma reads_statementTrace [simp]: "reads (statementTrace c p sts outs) = []"
  by (rule statementTrace_projections)

lemma createSchemaManually_events:
  assumes "reads (emitted s (createSchemaManually w orm t s)) = [Inr schema]"
  shows "\<exists>outs. length outs = length (statements schema) \<and>
           emitted s (createSchemaManually w orm t s) =
             [Console ConsoleLog [''Creating tenant schema manually...''],
              ReadFile (Inr schema)] @
             statementTrace orm ''Warning executing statement for tenant: ''
               (statements schema) outs @
             [Console ConsoleLog [''Schema created successfully for tenant '' @ t]]"
proof -
  from createSchemaManually_shape [of w orm t s] obtain E where
    E: "trace (createSchemaManually w orm t s) = trace s @ E" "schemaEvents orm t E"
    by blast
  have em: "emitted s (createSchemaManually w orm t s) = E"
    using E(1) by (rule emittedI)
  from E(2) show ?thesis
  proof cases
    case (unreadable e)
    with assms em show ?thesis by simp
  next
    case (executed outs schema')
    with assms em have "schema' = schema" by simp
    with executed em show ?thesis by auto
  qed
qed

lemma bootstrapCreateSchema_events:
  assumes "reads (emitted s (bootstrapCreateSchema w orm s)) = [Inr schema]"
  shows "\<exists>outs. length outs = length (statements schema) \<and>
           emitted s (bootstrapCreateSchema w orm s) =
             [Console ConsoleLog [''Creating schema manually...''], ReadFile (Inr schema)] @
             statementTrace orm ''Warning executing statement: '' (statements schema) outs @
             [Console ConsoleLog [''Schema created successfully'']]"
proof -
  define s0 where "s0 = console ConsoleLog [''Creating schema manually...''] s"
  obtain x s1 where r: "readFile w s0 = (x, s1)"
    by (cases "readFile w s0")
  note r1 = readFile_results [OF r]
  show ?thesis
  proof (cases x)
    case (Inl e)
    with r r1 have "trace (bootstrapCreateSchema w orm s) =
        trace s @ [Console ConsoleLog [''Creating schema manually...''], ReadFile (Inl e),
                   Console ConsoleError [''Error creating schema:'', message e]]"
      by (simp add: bootstrapCreateSchema_def s0_def)
    from emittedI [OF this] assms show ?thesis by simp
  next
    case (Inr schema')
    obtain outs where o: "length outs = length (statements schema')"
      "trace (executeStatements w orm ''Warning executing statement: ''
                (statements schema') s1) =
       trace s1 @ statementTrace orm ''Warning executing statement: '' (statements schema') outs"
      using executeStatements_shape [of "statements schema'" w orm
          "''Warning executing statement: ''" s1]
      by blast
    with r r1 Inr have "trace (bootstrapCreateSchema w orm s) =
        trace s @ [Console ConsoleLog [''Creating schema manually...''], ReadFile (Inr schema')] @
             statementTrace orm ''Warning executing statement: '' (statements schema') outs @
             [Console ConsoleLog [''Schema created successfully'']]"
      by (simp add: bootstrapCreateSchema_def s0_def)
    from emittedI [OF this] have em: "emitted s (bootstrapCreateSchema w orm s) =
        [Console ConsoleLog [''Creating schema manually...''], ReadFile (Inr schema')] @
             statementTrace orm ''Warning executing statement: '' (statements schema') outs @
             [Console ConsoleLog [''Schema created successfully'']]" .
    with assms have "schema' = schema" by simp
    with em o(1) show ?thesis by auto
  qed
qed

text \<open>What \<^const>\<open>split\<close> computes: the pieces between the separators.\<close>

lemma split_Nil:
  assumes "dropWhile (\<lambda>c. c \<noteq> sep) s = []"
  shows "split sep s = [takeWhile (\<lambda>c. c \<noteq> sep) s]"
  by (subst split.simps, subst assms, simp)

lemma split_Cons:
  assumes "dropWhile (\<lambda>c. c \<noteq> sep) s = x # rest"
  shows "split sep s = takeWhile (\<lambda>c. c \<noteq> sep) s # split sep rest"
  by (subst split.simps, subst assms, simp)

lemma split_no_separator: "p \<in> set (split sep s) \<Longrightarrow> sep \<notin> set p"
proof (induction sep s rule: split.induct)
  case (1 sep s)
  show ?case
  proof (cases "dropWhile (\<lambda>c. c \<noteq> sep) s")
    case Nil
    with "1.prems" have "p = takeWhile (\<lambda>c. c \<noteq> sep) s"
      by (simp add: split_Nil [OF Nil])
    then show ?thesis
      by (auto dest: set_takeWhileD)
  next
    case (Cons x rest)
    with "1.prems" have "p = takeWhile (\<lambda>c. c \<noteq> sep) s \<or> p \<in> set (split sep rest)"
      by (simp add: split_Cons [OF Cons])
    with "1.IH" [OF Cons] show ?thesis
      by (auto dest: set_takeWhileD)
  qed
qed

lemma split_not_Nil: "split sep s \<noteq> []"
  by (cases "dropWhile (\<lambda>c. c \<noteq> sep) s") (simp_all add: split_Nil split_Cons)

lemma join_split: "joinWith sep (split sep s) = s"
proof (induction sep s rule: split.induct)
  case (1 sep s)
  show ?case
  proof (cases "dropWhile (\<lambda>c. c \<noteq> sep) s")
    case Nil
    have tw: "takeWhile (\<lambda>c. c \<noteq> sep) s = s"
      using takeWhile_dropWhile_id [of "\<lambda>c. c \<noteq> sep" s] unfolding Nil by simp
    show ?thesis
      unfolding split_Nil [OF Nil] tw by simp
  next
    case (Cons x rest)
    have "x = sep"
      using hd_dropWhile [of "\<lambda>c. c \<noteq> sep" s] unfolding Cons by simp
    obtain q qs where q: "split sep rest = q # qs"
      using split_not_Nil [of sep rest] by (cases "split sep rest") auto
    have "joinWith sep (split sep s) =
        takeWhile (\<lambda>c. c \<noteq> sep) s @ sep # joinWith sep (split sep rest)"
      unfolding split_Cons [OF Cons] q by simp
    also have "\<dots> = takeWhile (\<lambda>c. c \<noteq> sep) s @ sep # rest"
      using "1.IH" [OF Cons] by simp
    also have "\<dots> = takeWhile (\<lambda>c. c \<noteq> sep) s @ dropWhile (\<lambda>c. c \<noteq> sep) s"
      unfolding Cons \<open>x = sep\<close> by simp
    finally show ?thesis by simp
  qed
qed

text \<open>
  Claim C9. When the schema file was read, the events of the manual schema are, in this
  order: the first console line, the read, then for every statement of
  \<^const>\<open>statements\<close> (the pieces of the text between semicolons, trimmed, the empty ones
  left out) its execution on the connection given, followed by a warning when it failed,
  and at last the console line that reports success. The outcomes of the statements are
  arbitrary: no outcome stops the loop, and the block has no error to return. This holds
  for the block of \<^verbatim>\<open>getTenantORM\<close> and for the block of \<^verbatim>\<open>bootstrap\<close>.
\<close>

theorem fallback_executes_every_statement:
  "(reads (emitted s (createSchemaManually w orm t s)) = [Inr schema] \<longrightarrow>
      (\<exists>outs. length outs = length (statements schema) \<and>
         emitted s (createSchemaManually w orm t s) =
           [Console ConsoleLog [''Creating tenant schema manually...''],
            ReadFile (Inr schema)] @
           statementTrace orm ''Warning executing statement for tenant: ''
             (statements schema) outs @
           [Console ConsoleLog [''Schema created successfully for tenant '' @ t]])) \<and>
   (reads (emitted s (bootstrapCreateSchema w orm s)) = [Inr schema] \<longrightarrow>
      (\<exists>outs. length outs = length (statements schema) \<and>
         emitted s (bootstrapCreateSchema w orm s) =
           [Console ConsoleLog [''Creating schema manually...''], ReadFile (Inr schema)] @
           statementTrace orm ''Warning executing statement: '' (statements schema) outs @
           [Console ConsoleLog [''Schema created successfully'']])) \<and>
   statements schema = filter (\<lambda>p. p \<noteq> []) (map trim (split CHR '';'' schema)) \<and>
   joinWith CHR '';'' (split CHR '';'' schema) = schema \<and>
   (\<forall>p\<in>set (split CHR '';'' schema). CHR '';'' \<notin> set p)"
proof (intro conjI impI ballI)
  assume "reads (emitted s (createSchemaManually w orm t s)) = [Inr schema]"
  then show "\<exists>outs. length outs = length (statements schema) \<and>
         emitted s (createSchemaManually w orm t s) =
           [Console ConsoleLog [''Creating tenant schema manually...''],
            ReadFile (Inr schema)] @
           statementTrace orm ''Warning executing statement for tenant: ''
             (statements schema) outs @
           [Console ConsoleLog [''Schema created successfully for tenant '' @ t]]"
    by (rule createSchemaManually_events)
next
  assume "reads (emitted s (bootstrapCreateSchema w orm s)) = [Inr schema]"
  then show "\<exists>outs. length outs = length (statements schema) \<and>
         emitted s (bootstrapCreateSchema w orm s) =
           [Console ConsoleLog [''Creating schema manually...''], ReadFile (Inr schema)] @
           statementTrace orm ''Warning executing statement: '' (statements schema) outs @
           [Console ConsoleLog [''Schema created successfully'']]"
    by (rule bootstrapCreateSchema_events)
next
  show "statements schema = filter (\<lambda>p. p \<noteq> []) (map trim (split CHR '';'' schema))"
    by (simp add: statements_def)
next
  show "joinWith CHR '';'' (split CHR '';'' schema) = schema"
    by (rule join_split)
next
  fix p
  assume "p \<in> set (split CHR '';'' schema)"
  then show "CHR '';'' \<notin> set p"
    by (rule split_no_separator)
qed

text \<open>
  The schema file of the server has three statements, of which the second fails.
\<close>

theorem fallback_executes_every_statement_witness:
  "reads (emitted started (createSchemaManually cluster 4 ''acme'' started)) =
     [Inr ''CREATE TABLE crop (id UUID); CREATE TABLE crop (id UUID); CREATE TABLE harvest (id UUID); ''] \<and>
   reads (emitted started (bootstrapCreateSchema cluster 4 started)) =
     [Inr ''CREATE TABLE crop (id UUID); CREATE TABLE crop (id UUID); CREATE TABLE harvest (id UUID); ''] \<and>
   (\<exists>outs. length outs = 3 \<and>
      emitted started (createSchemaManually cluster 4 ''acme'' started) =
        [Console ConsoleLog [''Creating tenant schema manually...''],
         ReadFile (Inr ''CREATE TABLE crop (id UUID); CREATE TABLE crop (id UUID); CREATE TABLE harvest (id UUID); '')] @
        statementTrace 4 ''Warning executing statement for tenant: ''
          [''CREATE TABLE crop (id UUID)'', ''CREATE TABLE crop (id UUID)'',
           ''CREATE TABLE harvest (id UUID)''] outs @
        [Console ConsoleLog [''Schema created successfully for tenant acme'']])"
proof -
  have r1: "reads (emitted started (createSchemaManually cluster 4 ''acme'' started)) =
     [Inr ''CREATE TABLE crop (id UUID); CREATE TABLE crop (id UUID); CREATE TABLE harvest (id UUID); '']"
    by code_simp
  have r2: "reads (emitted started (bootstrapCreateSchema cluster 4 started)) =
     [Inr ''CREATE TABLE crop (id UUID); CREATE TABLE crop (id UUID); CREATE TABLE harvest (id UUID); '']"
    by code_simp
  have st: "statements ''CREATE TABLE crop (id UUID); CREATE TABLE crop (id UUID); CREATE TABLE harvest (id UUID); '' =
      [''CREATE TABLE crop (id UUID)'', ''CREATE TABLE crop (id UUID)'',
       ''CREATE TABLE harvest (id UUID)'']"
    by code_simp
  from fallback_executes_every_statement [of started cluster 4 "''acme''"
      "''CREATE TABLE crop (id UUID); CREATE TABLE crop (id UUID); CREATE TABLE harvest (id UUID); ''"]
    r1
  have "\<exists>outs. length outs = length (statements ''CREATE TABLE crop (id UUID); CREATE TABLE crop (id UUID); CREATE TABLE harvest (id UUID); '') \<and>
      emitted started (createSchemaManually cluster 4 ''acme'' started) =
        [Console ConsoleLog [''Creating tenant schema manually...''],
         ReadFile (Inr ''CREATE TABLE crop (id UUID); CREATE TABLE crop (id UUID); CREATE TABLE harvest (id UUID); '')] @
        statementTrace 4 ''Warning executing statement for tenant: ''
          (statements ''CREATE TABLE crop (id UUID); CREATE TABLE crop (id UUID); CREATE TABLE harvest (id UUID); '') outs @
        [Console ConsoleLog [''Schema created successfully for tenant '' @ ''acme'']]"
    by blast
  then obtain outs where o:
    "length outs = length (statements ''CREATE TABLE crop (id UUID); CREATE TABLE crop (id UUID); CREATE TABLE harvest (id UUID); '')"
    "emitted started (createSchemaManually cluster 4 ''acme'' started) =
        [Console ConsoleLog [''Creating tenant schema manually...''],
         ReadFile (Inr ''CREATE TABLE crop (id UUID); CREATE TABLE crop (id UUID); CREATE TABLE harvest (id UUID); '')] @
        statementTrace 4 ''Warning executing statement for tenant: ''
          (statements ''CREATE TABLE crop (id UUID); CREATE TABLE crop (id UUID); CREATE TABLE harvest (id UUID); '') outs @
        [Console ConsoleLog [''Schema created successfully for tenant '' @ ''acme'']]"
    by blast
  have ex: "\<exists>outs. length outs = 3 \<and>
      emitted started (createSchemaManually cluster 4 ''acme'' started) =
        [Console ConsoleLog [''Creating tenant schema manually...''],
         ReadFile (Inr ''CREATE TABLE crop (id UUID); CREATE TABLE crop (id UUID); CREATE TABLE harvest (id UUID); '')] @
        statementTrace 4 ''Warning executing statement for tenant: ''
          [''CREATE TABLE crop (id UUID)'', ''CREATE TABLE crop (id UUID)'',
           ''CREATE TABLE harvest (id UUID)''] outs @
        [Console ConsoleLog [''Schema created successfully for tenant acme'']]"
  proof (intro exI [of _ outs] conjI)
    show "length outs = 3"
      using o(1) unfolding st by simp
    show "emitted started (createSchemaManually cluster 4 ''acme'' started) =
        [Console ConsoleLog [''Creating tenant schema manually...''],
         ReadFile (Inr ''CREATE TABLE crop (id UUID); CREATE TABLE crop (id UUID); CREATE TABLE harvest (id UUID); '')] @
        statementTrace 4 ''Warning executing statement for tenant: ''
          [''CREATE TABLE crop (id UUID)'', ''CREATE TABLE crop (id UUID)'',
           ''CREATE TABLE harvest (id UUID)''] outs @
        [Console ConsoleLog [''Schema created successfully for tenant acme'']]"
      using o(2) unfolding st by simp
  qed
  show ?thesis
    by (rule conjI [OF r1 conjI [OF r2 ex]])
qed

subsection \<open>The tenant of a request\<close>

lemma firstLabel_Some:
  "hostname req = Some host \<Longrightarrow>
   firstLabel req = Inr (Some (takeWhile (\<lambda>c. c \<noteq> CHR ''.'') host))"
  by (simp add: firstLabel_def first_split)

lemma firstLabel_None:
  "hostname req = None \<Longrightarrow>
   firstLabel req =
     Inl (JsError ''TypeError'' ''Cannot read properties of undefined (reading 'split')'')"
  by (simp add: firstLabel_def)

lemma tenantMiddleware_400:
  "(fst (tenantMiddleware w req s) = Response 400 ''Tenant identification required'') =
     (resolveTenantId req = Inr (Some []))"
proof (cases "resolveTenantId req")
  case (Inl e)
  then show ?thesis
    by (simp add: tenantMiddleware_def)
next
  case (Inr v)
  have label: "firstLabel req = Inr u \<Longrightarrow> u \<noteq> None" for u
    by (cases "hostname req") (auto simp: firstLabel_def first_split)
  have never_None: "v \<noteq> None"
  proof (cases "x_tenant_id req")
    case None
    with Inr have "firstLabel req = Inr v"
      by (simp add: resolveTenantId_def)
    then show ?thesis
      by (rule label)
  next
    case (Some x)
    show ?thesis
    proof (cases "x = []")
      case True
      with Some Inr have "firstLabel req = Inr v"
        by (simp add: resolveTenantId_def)
      then show ?thesis
        by (rule label)
    next
      case False
      with Some Inr have "v = Some x"
        by (simp add: resolveTenantId_def)
      then show ?thesis
        by simp
    qed
  qed
  then obtain t where t: "v = Some t"
    by auto
  show ?thesis
    by (cases "getTenantORM w t s") (auto simp: tenantMiddleware_def Inr t split: sum.splits)
qed

text \<open>
  Claim C4, as the code has it. The tenant of a request is its header when the request
  has one that is not empty, whatever its host. Otherwise (no header, or an empty one) it
  is the part of the host name before its first dot when the request has a host name, and
  the resolution throws a \<^verbatim>\<open>TypeError\<close> when it has none. The middleware answers 400
  exactly when the value resolved is the empty string, and then the state is as it was;
  when the resolution throws, the promise of the middleware is rejected with that error,
  the state being as it was.
\<close>

theorem tenant_is_nonempty_header_or_first_label:
  "resolveTenantId req =
     (case x_tenant_id req of
        Some h \<Rightarrow> if h \<noteq> [] then Inr (Some h) else firstLabel req
      | None \<Rightarrow> firstLabel req) \<and>
   firstLabel req =
     (case hostname req of
        Some host \<Rightarrow> Inr (Some (takeWhile (\<lambda>c. c \<noteq> CHR ''.'') host))
      | None \<Rightarrow>
          Inl (JsError ''TypeError'' ''Cannot read properties of undefined (reading 'split')'')) \<and>
   ((fst (tenantMiddleware w req s) = Response 400 ''Tenant identification required'') =
      (resolveTenantId req = Inr (Some []))) \<and>
   (resolveTenantId req = Inr (Some []) \<longrightarrow>
      tenantMiddleware w req s = (Response 400 ''Tenant identification required'', s)) \<and>
   (\<forall>e. resolveTenantId req = Inl e \<longrightarrow> tenantMiddleware w req s = (Rejected e, s))"
proof (intro conjI allI impI)
  show "resolveTenantId req =
     (case x_tenant_id req of
        Some h \<Rightarrow> if h \<noteq> [] then Inr (Some h) else firstLabel req
      | None \<Rightarrow> firstLabel req)"
    by (simp add: resolveTenantId_def split: option.splits)
next
  show "firstLabel req =
     (case hostname req of
        Some host \<Rightarrow> Inr (Some (takeWhile (\<lambda>c. c \<noteq> CHR ''.'') host))
      | None \<Rightarrow>
          Inl (JsError ''TypeError'' ''Cannot read properties of undefined (reading 'split')''))"
    by (cases "hostname req") (simp_all add: firstLabel_Some firstLabel_None)
next
  show "(fst (tenantMiddleware w req s) = Response 400 ''Tenant identification required'') =
      (resolveTenantId req = Inr (Some []))"
    by (rule tenantMiddleware_400)
next
  assume "resolveTenantId req = Inr (Some [])"
  then show "tenantMiddleware w req s = (Response 400 ''Tenant identification required'', s)"
    by (simp add: tenantMiddleware_def)
next
  fix e
  assume "resolveTenantId req = Inl e"
  then show "tenantMiddleware w req s = (Rejected e, s)"
    by (simp add: tenantMiddleware_def)
qed

text \<open>
  A request with no header whose host name is empty (the \<^verbatim>\<open>Host\<close> header is a colon
  and a port), and a request with no header and no host name.
\<close>

theorem tenant_is_nonempty_header_or_first_label_witness:
  "resolveTenantId \<lparr>x_tenant_id = None, hostname = Some []\<rparr> = Inr (Some []) \<and>
   tenantMiddleware cluster \<lparr>x_tenant_id = None, hostname = Some []\<rparr> started =
     (Response 400 ''Tenant identification required'', started) \<and>
   resolveTenantId \<lparr>x_tenant_id = None, hostname = None\<rparr> =
     Inl (JsError ''TypeError'' ''Cannot read properties of undefined (reading 'split')'') \<and>
   tenantMiddleware cluster \<lparr>x_tenant_id = None, hostname = None\<rparr> started =
     (Rejected (JsError ''TypeError'' ''Cannot read properties of undefined (reading 'split')''),
      started)"
proof -
  have r: "resolveTenantId \<lparr>x_tenant_id = None, hostname = Some []\<rparr> = Inr (Some [])"
    by code_simp
  have t: "resolveTenantId \<lparr>x_tenant_id = None, hostname = None\<rparr> =
     Inl (JsError ''TypeError'' ''Cannot read properties of undefined (reading 'split')'')"
    by (simp add: resolveTenantId_def firstLabel_def)
  from tenant_is_nonempty_header_or_first_label
    [of "\<lparr>x_tenant_id = None, hostname = Some []\<rparr>" cluster started] r
  have a: "tenantMiddleware cluster \<lparr>x_tenant_id = None, hostname = Some []\<rparr> started =
     (Response 400 ''Tenant identification required'', started)"
    by blast
  from tenant_is_nonempty_header_or_first_label
    [of "\<lparr>x_tenant_id = None, hostname = None\<rparr>" cluster started] t
  have b: "tenantMiddleware cluster \<lparr>x_tenant_id = None, hostname = None\<rparr> started =
     (Rejected (JsError ''TypeError'' ''Cannot read properties of undefined (reading 'split')''),
      started)"
    by blast
  show ?thesis
    by (rule conjI [OF r conjI [OF a conjI [OF t b]]])
qed

text \<open>
  Claim C4 as stated fails twice. A request with an empty header is not answered with
  the header (nor with 400) but with the first label of its host; and a request with
  neither a header nor a host name is not answered with 400: the resolution throws, and
  no response is sent.
\<close>

theorem empty_header_counterexample:
  "resolveTenantId \<lparr>x_tenant_id = Some [], hostname = Some ''acme.example.com''\<rparr> =
     Inr (Some ''acme'') \<and>
   fst (tenantMiddleware cluster
          \<lparr>x_tenant_id = Some [], hostname = Some ''acme.example.com''\<rparr> started) =
     Next ''acme'' (Some 4) \<and>
   tenantMiddleware cluster \<lparr>x_tenant_id = None, hostname = None\<rparr> started =
     (Rejected (JsError ''TypeError'' ''Cannot read properties of undefined (reading 'split')''),
      started)"
  by code_simp

text \<open>
  Claim C3, as the code has it. A request without the header whose host name is
  \<^verbatim>\<open>localhost\<close> has the tenant \<^verbatim>\<open>localhost\<close>: the middleware calls
  \<^verbatim>\<open>getTenantORM\<close> for it, never answers 400, and records events when the tenant is
  not cached. A request without the header whose host name is a string with nothing before
  its first dot is answered with 400, the state being as it was.
\<close>

theorem localhost_is_a_tenant:
  assumes "x_tenant_id req = None"
  shows "(hostname req = Some ''localhost'' \<longrightarrow>
            resolveTenantId req = Inr (Some ''localhost'') \<and>
            tenantMiddleware w req s =
              (case getTenantORM w ''localhost'' s of
                 (Inr tenantORM, s1) \<Rightarrow> (Next ''localhost'' tenantORM, s1)
               | (Inl error, s1) \<Rightarrow>
                   (Response 500 ''Error initializing tenant context'',
                    console ConsoleError
                      [''Error initializing tenant context: '' @ errorToString error] s1)) \<and>
            (\<forall>m. fst (tenantMiddleware w req s) \<noteq> Response 400 m) \<and>
            (\<not> has s ''localhost'' \<longrightarrow> emitted s (snd (tenantMiddleware w req s)) \<noteq> [])) \<and>
         (\<forall>host. hostname req = Some host \<and> takeWhile (\<lambda>c. c \<noteq> CHR ''.'') host = [] \<longrightarrow>
            tenantMiddleware w req s = (Response 400 ''Tenant identification required'', s))"
proof -
  have res: "resolveTenantId req = Inr (Some (takeWhile (\<lambda>c. c \<noteq> CHR ''.'') host))"
    if "hostname req = Some host" for host
    using assms that by (simp add: resolveTenantId_def firstLabel_Some)
  have empty: "tenantMiddleware w req s = (Response 400 ''Tenant identification required'', s)"
    if "hostname req = Some host" "takeWhile (\<lambda>c. c \<noteq> CHR ''.'') host = []" for host
    using res [OF that(1)] that(2) by (simp add: tenantMiddleware_def)
  have local: "resolveTenantId req = Inr (Some ''localhost'') \<and>
            tenantMiddleware w req s =
              (case getTenantORM w ''localhost'' s of
                 (Inr tenantORM, s1) \<Rightarrow> (Next ''localhost'' tenantORM, s1)
               | (Inl error, s1) \<Rightarrow>
                   (Response 500 ''Error initializing tenant context'',
                    console ConsoleError
                      [''Error initializing tenant context: '' @ errorToString error] s1)) \<and>
            (\<forall>m. fst (tenantMiddleware w req s) \<noteq> Response 400 m) \<and>
            (\<not> has s ''localhost'' \<longrightarrow> emitted s (snd (tenantMiddleware w req s)) \<noteq> [])"
    if h: "hostname req = Some ''localhost''"
  proof -
    have l: "resolveTenantId req = Inr (Some ''localhost'')"
      using res [OF h] by simp
    have mw: "tenantMiddleware w req s =
              (case getTenantORM w ''localhost'' s of
                 (Inr tenantORM, s1) \<Rightarrow> (Next ''localhost'' tenantORM, s1)
               | (Inl error, s1) \<Rightarrow>
                   (Response 500 ''Error initializing tenant context'',
                    console ConsoleError
                      [''Error initializing tenant context: '' @ errorToString error] s1))"
      by (simp add: tenantMiddleware_def l)
    obtain r s' where g: "getTenantORM w ''localhost'' s = (r, s')"
      by (cases "getTenantORM w ''localhost'' s")
    have no400: "\<forall>m. fst (tenantMiddleware w req s) \<noteq> Response 400 m"
      unfolding mw g by (cases r) simp_all
    have ev: "emitted s (snd (tenantMiddleware w req s)) \<noteq> []" if nh: "\<not> has s ''localhost''"
    proof -
      from getTenantORM_shape [OF nh g] obtain T where
        T: "trace s' = trace s @ T" "tenantEvents w ''localhost'' (baseOrm s) (baseOrm s') r T"
        by blast
      from T(2) have "T \<noteq> []"
        by cases simp_all
      show ?thesis
      proof (cases r)
        case (Inl e)
        then have "trace (snd (tenantMiddleware w req s)) =
            trace s @ T @ [Console ConsoleError
              [''Error initializing tenant context: '' @ errorToString e]]"
          unfolding mw g using T(1) by simp
        from emittedI [OF this] show ?thesis by simp
      next
        case (Inr v)
        then have "trace (snd (tenantMiddleware w req s)) = trace s @ T"
          unfolding mw g using T(1) by simp
        from emittedI [OF this] \<open>T \<noteq> []\<close> show ?thesis by simp
      qed
    qed
    from l mw no400 ev show ?thesis by blast
  qed
  from local empty show ?thesis by blast
qed

text \<open>
  A request for \<^verbatim>\<open>localhost\<close> on the server that has just started, and a
  request whose host name starts with a dot.
\<close>

theorem localhost_is_a_tenant_witness:
  "x_tenant_id \<lparr>x_tenant_id = None, hostname = Some ''localhost''\<rparr> = None \<and>
   hostname \<lparr>x_tenant_id = None, hostname = Some ''localhost''\<rparr> = Some ''localhost'' \<and>
   \<not> has started ''localhost'' \<and>
   resolveTenantId \<lparr>x_tenant_id = None, hostname = Some ''localhost''\<rparr> =
     Inr (Some ''localhost'') \<and>
   emitted started
     (snd (tenantMiddleware cluster
        \<lparr>x_tenant_id = None, hostname = Some ''localhost''\<rparr> started)) \<noteq> [] \<and>
   hostname \<lparr>x_tenant_id = None, hostname = Some ''.example.com''\<rparr> = Some ''.example.com'' \<and>
   takeWhile (\<lambda>c. c \<noteq> CHR ''.'') ''.example.com'' = [] \<and>
   tenantMiddleware cluster \<lparr>x_tenant_id = None, hostname = Some ''.example.com''\<rparr> started =
     (Response 400 ''Tenant identification required'', started)"
proof -
  have a: "x_tenant_id \<lparr>x_tenant_id = None, hostname = Some ''localhost''\<rparr> = None"
    by simp
  have b: "hostname \<lparr>x_tenant_id = None, hostname = Some ''localhost''\<rparr> = Some ''localhost''"
    by simp
  have c: "\<not> has started ''localhost''"
    by code_simp
  from localhost_is_a_tenant [OF a, of cluster started] b c
  have l: "resolveTenantId \<lparr>x_tenant_id = None, hostname = Some ''localhost''\<rparr> =
     Inr (Some ''localhost'') \<and>
   emitted started
     (snd (tenantMiddleware cluster
        \<lparr>x_tenant_id = None, hostname = Some ''localhost''\<rparr> started)) \<noteq> []"
    by blast
  have a': "x_tenant_id \<lparr>x_tenant_id = None, hostname = Some ''.example.com''\<rparr> = None"
    by simp
  have d: "hostname \<lparr>x_tenant_id = None, hostname = Some ''.example.com''\<rparr> =
      Some ''.example.com''"
    by simp
  have d': "takeWhile (\<lambda>c. c \<noteq> CHR ''.'') ''.example.com'' = []"
    by simp
  from localhost_is_a_tenant [OF a', of cluster started] d d'
  have e: "tenantMiddleware cluster
      \<lparr>x_tenant_id = None, hostname = Some ''.example.com''\<rparr> started =
     (Response 400 ''Tenant identification required'', started)"
    by blast
  from a b c l d d' e show ?thesis
    by blast
qed

text \<open>
  Claim C3 as stated fails: the request is not answered with 400, and it reaches the
  tenant manager, which creates the database of the tenant \<^verbatim>\<open>localhost\<close>.
\<close>

theorem localhost_counterexample:
  "resolveTenantId \<lparr>x_tenant_id = None, hostname = Some ''localhost''\<rparr> =
     Inr (Some ''localhost'') \<and>
   fst (tenantMiddleware cluster
          \<lparr>x_tenant_id = None, hostname = Some ''localhost''\<rparr> started) =
     Next ''localhost'' (Some 4) \<and>
   executes (trace (snd (tenantMiddleware cluster
       \<lparr>x_tenant_id = None, hostname = Some ''localhost''\<rparr> started))) =
     [(0, ''SELECT 1 FROM pg_database WHERE datname = $1'', [''tenant_localhost''], Inr 0),
      (0, ''CREATE DATABASE tenant_localhost'', [], Inr 0)]"
  by code_simp

subsection \<open>The tenant of a new organization\<close>

text \<open>
  A character of the name that is not white space and is its own lower case (a digit, a
  punctuation mark) is in the identifier.
\<close>

lemma replaceSpaceRuns_keeps:
  "c \<in> set s \<Longrightarrow> \<not> isSpace c \<Longrightarrow> c \<in> set (replaceSpaceRuns s)"
proof (induction s rule: replaceSpaceRuns.induct)
  case 1
  then show ?case by simp
next
  case (2 x xs)
  show ?case
  proof (cases "isSpace x")
    case True
    with "2.prems" have "c \<in> set xs" by auto
    with "2.prems"(2) have "c \<in> set (dropWhile isSpace xs)"
      by (induction xs) auto
    with "2.IH"(1) [OF True] "2.prems"(2) True show ?thesis by simp
  next
    case False
    with "2.prems" "2.IH"(2) show ?thesis by auto
  qed
qed

lemma organizationTenantId_keeps:
  assumes "c \<in> set name" and "\<not> isSpace c" and "lowerChar c = c"
  shows "c \<in> set (organizationTenantId name)"
proof -
  from assms(1,3) have "c \<in> set (toLowerCase name)"
    by (force simp: toLowerCase_def)
  then show ?thesis
    unfolding organizationTenantId_def using assms(2) by (rule replaceSpaceRuns_keeps)
qed

text \<open>
  Claim C2 fails on the code: only white space is replaced, so other characters that are
  neither letters nor digits stay in the identifier. The handler of the tutorial replaces
  them.
\<close>

theorem organizationTenantId_keeps_punctuation:
  "CHR ''&'' \<in> set (organizationTenantId ''A&B Farm'') \<and>
   organizationTenantId ''A&B Farm'' = ''a&b-farm'' \<and>
   tutorialTenantId ''A&B Farm'' = ''a-b-farm''"
proof -
  have "CHR ''&'' \<in> set ''A&B Farm''"
    by simp
  moreover have "\<not> isSpace CHR ''&''"
    by (simp add: isSpace_def)
  moreover have "lowerChar CHR ''&'' = CHR ''&''"
    by (simp add: lowerChar_def)
  ultimately have kept: "CHR ''&'' \<in> set (organizationTenantId ''A&B Farm'')"
    by (rule organizationTenantId_keeps)
  have code: "organizationTenantId ''A&B Farm'' = ''a&b-farm''"
    by code_simp
  have tutorial: "tutorialTenantId ''A&B Farm'' = ''a-b-farm''"
    by code_simp
  from kept code tutorial show ?thesis
    by (intro conjI)
qed

subsection \<open>Calls that overlap\<close>

text \<open>A call that runs alone, from its start to its end, is \<^const>\<open>getTenantORM\<close>.\<close>

declare complete.simps(2-9) [simp del]

lemma complete_nextStatement:
  "(case nextStatement t orm sts s of (k, s') \<Rightarrow> complete w t k s') =
     (let s3 = console ConsoleLog [''Schema created successfully for tenant '' @ t]
                 (executeStatements w orm ''Warning executing statement for tenant: '' sts s);
          s4 = s3\<lparr>tenantOrmInstances := AList.update t orm (tenantOrmInstances s3)\<rparr>
      in (Inr (map_of (tenantOrmInstances s4) t), s4))"
proof (induction sts arbitrary: s)
  case Nil
  show ?case by (simp add: finish_def Let_def)
next
  case (Cons st sts)
  obtain x s1 where e: "execute w orm st [] s = (x, s1)"
    by (cases "execute w orm st [] s")
  show ?case
    using Cons.IH e by (cases x) (simp_all add: Let_def complete.simps(9))
qed

lemma complete_AwaitUp:
  "complete w t (AwaitUp orm) s =
     (let s3 = runMigrations w orm t s;
          s4 = s3\<lparr>tenantOrmInstances := AList.update t orm (tenantOrmInstances s3)\<rparr>
      in (Inr (map_of (tenantOrmInstances s4) t), s4))"
proof -
  obtain x s1 where u: "up w orm s = (x, s1)"
    by (cases "up w orm s")
  show ?thesis
  proof (cases x)
    case (Inr v)
    with u show ?thesis
      by (simp add: runMigrations_def finish_def Let_def complete.simps(8))
  next
    case (Inl e)
    define s2 where "s2 = console ConsoleLog [''Creating tenant schema manually...'']
                     (console ConsoleLog
                        [''Creating schema manually for tenant '' @ t @ ''...'']
                        (console ConsoleLog
                           [''Migrations not applied for tenant '' @ t @ '': '' @ message e]
                           s1))"
    obtain y s3 where r: "readFile w s2 = (y, s3)"
      by (cases "readFile w s2")
    show ?thesis
    proof (cases y)
      case schemaError: (Inl e2)
      with u Inl r show ?thesis
        by (simp add: runMigrations_def createSchemaManually_def finish_def Let_def s2_def
            complete.simps(8))
    next
      case (Inr schema)
      with u Inl r
        complete_nextStatement [where t = t and orm = orm and sts = "statements schema"
          and s = s3 and w = w]
      show ?thesis
        by (simp add: runMigrations_def createSchemaManually_def Let_def s2_def
            complete.simps(8))
    qed
  qed
qed

lemma complete_AwaitTenantInit:
  "complete w t AwaitTenantInit s =
     (case init w (tenantOptions w t) s of
        (Inl e, s2) \<Rightarrow> (Inl e, s2)
      | (Inr orm, s2) \<Rightarrow>
          (let s3 = runMigrations w orm t s2;
               s4 = s3\<lparr>tenantOrmInstances := AList.update t orm (tenantOrmInstances s3)\<rparr>
           in (Inr (map_of (tenantOrmInstances s4) t), s4)))"
proof -
  obtain x s1 where i: "init w (tenantOptions w t) s = (x, s1)"
    by (cases "init w (tenantOptions w t) s")
  then show ?thesis
    by (cases x) (simp_all add: complete.simps(7) complete_AwaitUp)
qed

lemma complete_AwaitCheck:
  "complete w t (AwaitCheck b) s = complete w t AwaitTenantInit (checkCreateDatabase w b t s)"
proof -
  obtain x s1 where c: "execute w b ''SELECT 1 FROM pg_database WHERE datname = $1''
      [''tenant_'' @ t] s = (x, s1)"
    by (cases "execute w b ''SELECT 1 FROM pg_database WHERE datname = $1'' [''tenant_'' @ t] s")
  obtain y s2 where d: "execute w b (''CREATE DATABASE tenant_'' @ t) [] s1 = (y, s2)"
    by (cases "execute w b (''CREATE DATABASE tenant_'' @ t) [] s1")
  show ?thesis
  proof (cases x)
    case (Inl e)
    with c show ?thesis
      by (simp add: checkCreateDatabase_def complete.simps(5))
  next
    case (Inr n)
    with c d show ?thesis
      by (cases y) (simp_all add: checkCreateDatabase_def complete.simps(5,6))
  qed
qed

lemma complete_Start: "complete w t Start s = getTenantORM w t s"
proof (cases "has s t")
  case True
  then show ?thesis
    by (simp add: getTenantORM_def complete.simps(2))
next
  case False
  show ?thesis
  proof (cases "baseOrm s")
    case (Some b)
    with False show ?thesis
      by (simp add: getTenantORM_def getBaseORM_def complete_AwaitCheck
          complete_AwaitTenantInit complete.simps(2,4))
  next
    case None
    obtain x s1 where i: "init w (baseOptions w) s = (x, s1)"
      by (cases "init w (baseOptions w) s")
    from i have t: "tenantOrmInstances s1 = tenantOrmInstances s"
      by (rule init_results)
    show ?thesis
    proof (cases x)
      case (Inl e)
      with False None i show ?thesis
        by (simp add: getTenantORM_def getBaseORM_def complete.simps(2,3))
    next
      case (Inr b)
      with False None i show ?thesis
        by (simp add: getTenantORM_def getBaseORM_def complete_AwaitCheck
            complete_AwaitTenantInit complete.simps(2,3,4))
    qed
  qed
qed

lemma complete_step:
  assumes "\<forall>r. k \<noteq> Returned r"
  shows "complete w t k s = (case step w t k s of (k', s') \<Rightarrow> complete w t k' s')"
  using assms by (cases k) (simp_all only: complete.simps, simp)

lemma interleave_alone_step:
  assumes "\<forall>r. k \<noteq> Returned r"
    and "\<And>k' s'. (k', s') = step w t k s \<Longrightarrow>
      \<exists>n. interleave w (replicate n 0) [(t, k')] s' =
        ([(t, Returned (fst (complete w t k' s')))], snd (complete w t k' s'))"
  shows "\<exists>n. interleave w (replicate n 0) [(t, k)] s =
     ([(t, Returned (fst (complete w t k s)))], snd (complete w t k s))"
proof -
  obtain k' s' where st: "step w t k s = (k', s')"
    by (cases "step w t k s")
  from assms(2) [OF st [symmetric]] obtain n where
    n: "interleave w (replicate n 0) [(t, k')] s' =
      ([(t, Returned (fst (complete w t k' s')))], snd (complete w t k' s'))"
    by blast
  have c: "complete w t k s = complete w t k' s'"
    using st by (simp add: complete_step [OF assms(1)])
  have "interleave w (replicate (Suc n) 0) [(t, k)] s =
      interleave w (replicate n 0) [(t, k')] s'"
    using st by (simp del: step.simps)
  with n c show ?thesis by metis
qed

text \<open>Scheduled alone, a call reaches its end, with the result of \<^const>\<open>complete\<close>.\<close>

lemma interleave_alone:
  "\<exists>n. interleave w (replicate n 0) [(t, k)] s =
     ([(t, Returned (fst (complete w t k s)))], snd (complete w t k s))"
proof (induction w t k s rule: complete.induct)
  case (1 w t r s)
  have "interleave w (replicate 0 0) [(t, Returned r)] s =
     ([(t, Returned (fst (complete w t (Returned r) s)))], snd (complete w t (Returned r) s))"
    by simp
  then show ?case by blast
qed (rule interleave_alone_step, simp, blast)+

lemma call_alone:
  "\<exists>n. interleave w (replicate n 0) [(t, Start)] s =
     ([(t, Returned (fst (getTenantORM w t s)))], snd (getTenantORM w t s))"
  using interleave_alone [of w t Start s] by (simp add: complete_Start)

text \<open>
  Claim C1, for calls that do not overlap. Let a call for a tenant that is not cached
  return an instance. That call has made one provisioning run: it has sent the existence
  check once, it has sent \<^verbatim>\<open>CREATE DATABASE\<close> once when the check found no
  database and not at all otherwise, it has opened one instance for the tenant, the one it
  returns, and it has run the migrations once, on that instance. A call for the tenant made
  afterwards returns the same instance, records no event (no statement is sent, no
  instance is opened, no migration is run) and leaves the state as it is.
\<close>

theorem second_call_returns_cached_instance:
  assumes "\<not> has s t" and "getTenantORM w t s = (Inr (Some orm), s1)"
  shows "getTenantORM w t s1 = (Inr (Some orm), s1) \<and>
         emitted s1 (snd (getTenantORM w t s1)) = [] \<and>
         (\<exists>b x C. executes (beforeConnect w t (emitted s s1)) =
            (b, ''SELECT 1 FROM pg_database WHERE datname = $1'', [''tenant_'' @ t], x) # C \<and>
            (if x = Inr 0 then \<exists>y. C = [(b, ''CREATE DATABASE tenant_'' @ t, [], y)]
             else C = [])) \<and>
         length (filter (\<lambda>(conn, sql, params, x). sql = ''CREATE DATABASE tenant_'' @ t)
                   (executes (beforeConnect w t (emitted s s1)))) \<le> 1 \<and>
         filter (\<lambda>(opts, x). opts = tenantOptions w t) (inits (emitted s s1)) =
           [(tenantOptions w t, Inr orm)] \<and>
         (\<exists>y. migrations (emitted s s1) = [(orm, y)]) \<and>
         length (migrations (emitted s s1)) = 1"
proof -
  from getTenantORM_shape [OF assms]
  have "tenantOrmInstances s1 = AList.update t orm (tenantOrmInstances s)"
    by auto
  then have cached: "has s1 t" "map_of (tenantOrmInstances s1) t = Some orm"
    by (simp_all add: has_def map_of_update_same)
  have again: "getTenantORM w t s1 = (Inr (Some orm), s1)"
    "emitted s1 (snd (getTenantORM w t s1)) = []"
    using cached by (simp_all add: getTenantORM_cached)
  define r where "r = (Inr (Some orm) :: jserror + orm option)"
  have call: "getTenantORM w t s = (r, s1)"
    using assms(2) by (simp add: r_def)
  from getTenantORM_run [OF assms(1) call] consider
    (base) e where "r = Inl e"
  | (run) b B C x M where "baseEvents w (baseOrm s) (Inr b) B" "checkCreateEvents b t C"
      "emitted s s1 = B @ C @ Init (tenantOptions w t) x # M"
      "beforeConnect w t (emitted s s1) = B @ C"
      "case x of
         Inl e \<Rightarrow> r = Inl e \<and> M = [] \<and> tenantOrmInstances s1 = tenantOrmInstances s
       | Inr orm' \<Rightarrow> r = Inr (Some orm') \<and> migrationEvents orm' t M \<and>
           tenantOrmInstances s1 = AList.update t orm' (tenantOrmInstances s)"
    by blast
  then show ?thesis
  proof cases
    case base
    then show ?thesis by (simp add: r_def)
  next
    case run
    have ex: "executes (beforeConnect w t (emitted s s1)) = executes C"
      using run(1,4) by (simp add: baseEvents_projections)
    from run(2) have check: "\<exists>b x C'. executes C =
            (b, ''SELECT 1 FROM pg_database WHERE datname = $1'', [''tenant_'' @ t], x) # C' \<and>
            (if x = Inr 0 then \<exists>y. C' = [(b, ''CREATE DATABASE tenant_'' @ t, [], y)]
             else C' = [])"
      by cases simp_all
    from run(2) have creates:
      "length (filter (\<lambda>(conn, sql, params, x). sql = ''CREATE DATABASE tenant_'' @ t)
         (executes C)) \<le> 1"
      by cases simp_all
    from run(5) have x: "x = Inr orm" and M: "migrationEvents orm t M"
      by (cases x; simp add: r_def)+
    have "inits B = [] \<or> inits B = [(baseOptions w, Inr b)]"
      using run(1) by (rule baseEvents_projections)
    then have opened: "filter (\<lambda>(opts, x). opts = tenantOptions w t) (inits (emitted s s1)) =
           [(tenantOptions w t, Inr orm)]"
      using run(2) M x tenantOptions_neq_baseOptions [of w t]
      unfolding run(3)
      by (auto simp: checkCreateEvents_projections migrationEvents_projections)
    from M obtain y where "migrations M = [(orm, y)]"
      using migrationEvents_projections(2) by blast
    then have mig: "migrations (emitted s s1) = [(orm, y)]"
      using run(1,2,3) by (simp add: baseEvents_projections checkCreateEvents_projections)
    then have one: "length (migrations (emitted s s1)) = 1"
      by simp
    from mig have mig': "\<exists>y. migrations (emitted s s1) = [(orm, y)]"
      by blast
    from check creates have "(\<exists>b x C. executes (beforeConnect w t (emitted s s1)) =
            (b, ''SELECT 1 FROM pg_database WHERE datname = $1'', [''tenant_'' @ t], x) # C \<and>
            (if x = Inr 0 then \<exists>y. C = [(b, ''CREATE DATABASE tenant_'' @ t, [], y)]
             else C = []))"
      "length (filter (\<lambda>(conn, sql, params, x). sql = ''CREATE DATABASE tenant_'' @ t)
                   (executes (beforeConnect w t (emitted s s1)))) \<le> 1"
      unfolding ex by blast+
    with again opened mig' one show ?thesis
      by (intro conjI)
  qed
qed

text \<open>
  Two calls for \<^verbatim>\<open>acme\<close>, one after the other, on the server that has just started:
  the first call sends the check and \<^verbatim>\<open>CREATE DATABASE\<close>, opens the instance 4
  and runs its migrations; the second call returns the instance 4 and records nothing.
\<close>

theorem second_call_returns_cached_instance_witness:
  "\<not> has started ''acme'' \<and>
   fst (getTenantORM cluster ''acme'' started) = Inr (Some 4) \<and>
   getTenantORM cluster ''acme'' (snd (getTenantORM cluster ''acme'' started)) =
     (Inr (Some 4), snd (getTenantORM cluster ''acme'' started)) \<and>
   emitted (snd (getTenantORM cluster ''acme'' started))
     (snd (getTenantORM cluster ''acme'' (snd (getTenantORM cluster ''acme'' started)))) = [] \<and>
   length (migrations (emitted started (snd (getTenantORM cluster ''acme'' started)))) = 1 \<and>
   executes (emitted started (snd (getTenantORM cluster ''acme'' started))) =
     [(0, ''SELECT 1 FROM pg_database WHERE datname = $1'', [''tenant_acme''], Inr 0),
      (0, ''CREATE DATABASE tenant_acme'', [], Inr 0)]"
proof -
  have h: "\<not> has started ''acme''"
    by code_simp
  have f: "fst (getTenantORM cluster ''acme'' started) = Inr (Some 4)"
    by code_simp
  then have call: "getTenantORM cluster ''acme'' started =
      (Inr (Some 4), snd (getTenantORM cluster ''acme'' started))"
    by (metis surjective_pairing)
  have ex: "executes (emitted started (snd (getTenantORM cluster ''acme'' started))) =
     [(0, ''SELECT 1 FROM pg_database WHERE datname = $1'', [''tenant_acme''], Inr 0),
      (0, ''CREATE DATABASE tenant_acme'', [], Inr 0)]"
    by code_simp
  note inst = second_call_returns_cached_instance [OF h call]
  from inst have a:
    "getTenantORM cluster ''acme'' (snd (getTenantORM cluster ''acme'' started)) =
     (Inr (Some 4), snd (getTenantORM cluster ''acme'' started))"
    by (rule conjunct1)
  from inst have b: "emitted (snd (getTenantORM cluster ''acme'' started))
     (snd (getTenantORM cluster ''acme'' (snd (getTenantORM cluster ''acme'' started)))) = []"
    by blast
  from inst have c:
    "length (migrations (emitted started (snd (getTenantORM cluster ''acme'' started)))) = 1"
    by blast
  show ?thesis
    by (rule conjI [OF h conjI [OF f conjI [OF a conjI [OF b conjI [OF c ex]]]]])
qed

text \<open>
  Claim C1 as stated fails, for calls that overlap and for calls that do not. Two calls
  for the same tenant on a server without its database, the second starting while the
  first one waits for the answer of the existence check: both have found the map without
  the tenant and both find no database, so \<^verbatim>\<open>CREATE DATABASE\<close> is sent twice, two
  instances are opened for the tenant, the migrations run twice, and the two callers get
  different instances, of which the map keeps the second. When the second call starts
  after the first has created the database, \<^verbatim>\<open>CREATE DATABASE\<close> is sent once, and
  still two instances are opened and the callers get different ones. And on a server
  that has the database of the tenant already, two calls one after the other send no
  \<^verbatim>\<open>CREATE DATABASE\<close> at all.
\<close>

theorem overlapping_calls_counterexample:
  "map snd (fst (interleave cluster [0, 0, 0, 1, 1, 0, 1, 0, 1, 0, 1, 0, 1]
       [(''acme'', Start), (''acme'', Start)] started)) =
     [Returned (Inr (Some 7)), Returned (Inr (Some 8))] \<and>
   filter (\<lambda>(conn, sql, params, x). sql = ''CREATE DATABASE tenant_acme'')
     (executes (trace (snd (interleave cluster [0, 0, 0, 1, 1, 0, 1, 0, 1, 0, 1, 0, 1]
       [(''acme'', Start), (''acme'', Start)] started)))) =
     [(0, ''CREATE DATABASE tenant_acme'', [], Inr 0),
      (0, ''CREATE DATABASE tenant_acme'', [],
       Inl (JsError ''error'' ''database tenant_acme already exists''))] \<and>
   migrations (trace (snd (interleave cluster [0, 0, 0, 1, 1, 0, 1, 0, 1, 0, 1, 0, 1]
       [(''acme'', Start), (''acme'', Start)] started))) =
     [(7, Inr ()), (8, Inr ())] \<and>
   tenantOrmInstances (snd (interleave cluster [0, 0, 0, 1, 1, 0, 1, 0, 1, 0, 1, 0, 1]
       [(''acme'', Start), (''acme'', Start)] started)) =
     [(''acme'', 8)] \<and>
   map snd (fst (interleave cluster [0, 0, 0, 0, 0, 1, 1, 1, 0, 1, 0, 1]
       [(''acme'', Start), (''acme'', Start)] started)) =
     [Returned (Inr (Some 5)), Returned (Inr (Some 6))] \<and>
   executes (trace (snd (interleave cluster [0, 0, 0, 0, 0, 1, 1, 1, 0, 1, 0, 1]
       [(''acme'', Start), (''acme'', Start)] started))) =
     [(0, ''SELECT 1 FROM pg_database WHERE datname = $1'', [''tenant_acme''], Inr 0),
      (0, ''CREATE DATABASE tenant_acme'', [], Inr 0),
      (0, ''SELECT 1 FROM pg_database WHERE datname = $1'', [''tenant_acme''], Inr 1)] \<and>
   migrations (trace (snd (interleave cluster [0, 0, 0, 0, 0, 1, 1, 1, 0, 1, 0, 1]
       [(''acme'', Start), (''acme'', Start)] started))) =
     [(5, Inr ()), (6, Inr ())] \<and>
   \<not> has restarted ''acme'' \<and>
   fst (getTenantORM cluster ''acme'' restarted) = Inr (Some 3) \<and>
   executes (emitted restarted (snd (getTenantORM cluster ''acme'' restarted))) =
     [(1, ''SELECT 1 FROM pg_database WHERE datname = $1'', [''tenant_acme''], Inr 1)] \<and>
   executes (emitted restarted
       (snd (getTenantORM cluster ''acme'' (snd (getTenantORM cluster ''acme'' restarted))))) =
     [(1, ''SELECT 1 FROM pg_database WHERE datname = $1'', [''tenant_acme''], Inr 1)]"
  by code_simp

end
